theory Spec2Isabelle
  imports Main "HOL-Library.Word" "HOL-Library.Multiset" "HOL-Library.Sublist"
begin

unbundle bit_operations_syntax

section \<open>Host types used by the SkipScan node\<close>

text \<open>
  The SkipScan executor node (\<^verbatim>\<open>skip_scan_exec\<close> and its helpers) and the planner hook
  (\<^verbatim>\<open>ts_add_skip_scan_paths\<close>, \<^verbatim>\<open>skip_scan_plan_create\<close>) are embedded function by
  function.  Values of the host database that the node only passes around are kept
  abstract: a \<^verbatim>\<open>Datum\<close> is an integer, a NULL column is \<open>None\<close>.  Every \<^verbatim>\<open>elog(ERROR)\<close>,
  every \<^verbatim>\<open>Assert\<close> and every access outside an array is a value of type \<open>error\<close>.
\<close>

type_synonym Datum = int
type_synonym Oid = nat

datatype error =
    ERROR string
  | Assert_failed string
  | Out_of_bounds

text \<open>\<^verbatim>\<open>ScanKeyData\<close> of the host (access/skey.h), the fields the node reads or writes.\<close>

record ScanKeyData =
  sk_flags :: "32 word"
  sk_attno :: int
  sk_strategy :: nat
  sk_argument :: Datum

definition SK_ISNULL :: "32 word" where "SK_ISNULL = 0x0001"
definition SK_SEARCHNULL :: "32 word" where "SK_SEARCHNULL = 0x0040"
definition SK_SEARCHNOTNULL :: "32 word" where "SK_SEARCHNOTNULL = 0x0080"

definition BTLessStrategyNumber :: nat where "BTLessStrategyNumber = 1"
definition BTLessEqualStrategyNumber :: nat where "BTLessEqualStrategyNumber = 2"
definition BTEqualStrategyNumber :: nat where "BTEqualStrategyNumber = 3"
definition BTGreaterEqualStrategyNumber :: nat where "BTGreaterEqualStrategyNumber = 4"
definition BTGreaterStrategyNumber :: nat where "BTGreaterStrategyNumber = 5"

text \<open>
  A tuple as the inner scan hands it up: the columns of the index entry (numbered from 1
  by \<open>sk_attno\<close>) and the columns of the slot the node reads with \<^verbatim>\<open>slot_getattr\<close>
  (numbered from 1 by \<open>distinct_col_attnum\<close>).
\<close>

record Tuple =
  index_attrs :: "Datum option list"
  slot_attrs :: "Datum option list"

datatype ScanDirection = BackwardScanDirection | NoMovementScanDirection | ForwardScanDirection

record IndexScanDescData =
  numberOfKeys :: int
  keyData :: "ScanKeyData list"

text \<open>
  The calls the node makes into the inner scan and the index access method, in order,
  together with the entries of the node into its two search functions.
\<close>

datatype inner_call =
    Call_index_endscan
  | Call_index_beginscan int
  | Call_index_rescan "ScanKeyData list" int
  | Call_ExecProcNode
  | Call_ExecReScan
  | Call_ReleaseBuffer
  | Call_ExecEndNode
  | Call_search_for_null
  | Call_search_for_nonnull

section \<open>Expression, plan and path nodes of the host\<close>

text \<open>
  The node types of the host's planner, with the fields that \<^verbatim>\<open>planner.c\<close> reads or
  writes.  A cost is kept symbolic: the hook only ever replaces a cost by its \<^verbatim>\<open>log2\<close>.
\<close>

datatype Expr =
    Var (varno: int) (varattno: int) (vartype: Oid) (vartypmod: int) (varcollid: Oid)
        (varlevelsup: nat)
  | Const (consttype: Oid) (consttypmod: int) (constcollid: Oid) (constvalue: Datum)
          (constisnull: bool)
  | OpExpr (opno: Oid) (opresulttype: Oid) (opretset: bool) (opcollid: Oid) (inputcollid: Oid)
           (args: "Expr list")
  | RelabelType (arg: Expr)
  | OtherExpr nat

definition INDEX_VAR :: int where "INDEX_VAR = 65002"
definition InvalidOid :: Oid where "InvalidOid = 0"
definition BOOLOID :: Oid where "BOOLOID = 16"

record RestrictInfo =
  clause :: Expr

record TargetEntry =
  expr :: Expr
  resno :: int
  ressortgroupref :: nat

record EquivalenceMember =
  em_expr :: Expr
  em_is_const :: bool

record EquivalenceClass =
  ec_members :: "EquivalenceMember list"
  ec_has_volatile :: bool
  ec_sortref :: nat

record PathKey =
  pk_eclass :: EquivalenceClass

datatype Cost = Cost_value int | log2 Cost

datatype NodeTag = T_IndexScan | T_IndexOnlyScan | T_MergeAppend | T_Unique | T_CustomScan
  | T_OtherNode nat

record PathFields =
  pathtype :: NodeTag
  pathkeys :: "PathKey list"
  startup_cost :: Cost
  total_cost :: Cost
  parallel_aware :: bool
  parallel_safe :: bool

text \<open>\<^verbatim>\<open>IndexOptInfo\<close>; \<open>sortopfamily\<close> is \<open>None\<close> for the NULL of a non-orderable index.\<close>

record IndexOptInfo =
  rel_relid :: nat
  nkeycolumns :: int
  indexkeys :: "int list"
  indexcollations :: "Oid list"
  sortopfamily :: "Oid list option"
  reverse_sort :: "bool list"
  indextlist :: "TargetEntry list"

text \<open>
  Paths.  \<open>SkipScanPath\<close> is the \<^verbatim>\<open>SkipScanPath\<close> struct of skip\_scan.h: its
  \<^verbatim>\<open>cpath.path\<close>, \<^verbatim>\<open>index_path\<close> (which is also the one element of
  \<^verbatim>\<open>cpath.custom_paths\<close>), \<^verbatim>\<open>skip_clause\<close>, \<^verbatim>\<open>distinct_column\<close>,
  \<^verbatim>\<open>distinct_typ_len\<close> and \<^verbatim>\<open>distinct_by_val\<close>.
\<close>

datatype Path =
    IndexPath (path: PathFields) (indexinfo: IndexOptInfo) (indexorderbys: "Expr list")
              (indexscandir: ScanDirection)
  | MergeAppendPath (path: PathFields) (subpaths: "Path list")
  | UpperUniquePath (path: PathFields) (subpath: Path) (numkeys: int)
  | SkipScanPath (path: PathFields) (index_path: Path) (skip_clause: RestrictInfo)
                 (distinct_column: int) (distinct_typ_len: int) (distinct_by_val: bool)
  | OtherPath (path: PathFields)

record PlanFields =
  targetlist :: "TargetEntry list"
  plan_qual :: "Expr list"
  plan_parallel_aware :: bool
  plan_parallel_safe :: bool

text \<open>
  Plans.  \<open>CustomScan\<close> carries \<^verbatim>\<open>custom_scan_tlist\<close>, \<^verbatim>\<open>custom_plans\<close>,
  \<^verbatim>\<open>custom_private\<close> and the name of its methods table.
\<close>

datatype Plan =
    IndexScan (plan: PlanFields) (indexqual: "Expr list") (indexqualorig: "Expr list")
              (indexorderby: "Expr list") (indexorderdir: ScanDirection)
  | IndexOnlyScan (plan: PlanFields) (indexqual: "Expr list") (indexorderby: "Expr list")
                  (indexorderdir: ScanDirection)
  | CustomScan (plan: PlanFields) (custom_scan_tlist: "TargetEntry list")
               (custom_plans: "Plan list") (custom_private: "int list") (methods: string)
  | OtherPlan NodeTag

record pg_attribute =
  atttypid :: Oid
  atttypmod :: int
  attcollation :: Oid
  attbyval :: bool
  attlen :: int

text \<open>
  \<^verbatim>\<open>PlannerInfo\<close> together with the catalog lookups the hook makes through it:
  \<^verbatim>\<open>root->simple_rte_array[i]->relid\<close>, \<^verbatim>\<open>SearchSysCache2(ATTNUM, rel, col)\<close> and
  \<^verbatim>\<open>get_opfamily_member(opfamily, lefttype, righttype, strategy)\<close>.
\<close>

record PlannerInfo =
  simple_rte_relid :: "nat \<Rightarrow> Oid"
  SearchSysCache2_ATTNUM :: "Oid \<Rightarrow> int \<Rightarrow> pg_attribute option"
  get_opfamily_member :: "Oid \<Rightarrow> Oid \<Rightarrow> Oid \<Rightarrow> nat \<Rightarrow> Oid"

section \<open>SkipScanStage and SkipScanState (skip\_scan.h)\<close>

definition SkipScanSearchingForFirst :: "32 word" where "SkipScanSearchingForFirst = 0x0"
definition SkipScanFoundNull :: "32 word" where "SkipScanFoundNull = 0x1"
definition SkipScanFoundVal :: "32 word" where "SkipScanFoundVal = 0x2"
definition SkipScanSearchingForAdditional :: "32 word" where "SkipScanSearchingForAdditional = 0x4"
definition SkipScanSearchingForNull :: "32 word" where
  "SkipScanSearchingForNull = SkipScanSearchingForAdditional OR SkipScanFoundVal"
definition SkipScanSearchingForVal :: "32 word" where
  "SkipScanSearchingForVal = SkipScanSearchingForAdditional OR SkipScanFoundNull"
definition SkipScanFoundNullAndVal :: "32 word" where
  "SkipScanFoundNullAndVal = SkipScanFoundVal OR SkipScanFoundNull"

text \<open>
  \<^verbatim>\<open>SkipScanState\<close>.  The C struct holds pointers into the inner Index(Only)Scan node
  (\<^verbatim>\<open>num_scan_keys\<close>, \<^verbatim>\<open>scan_keys\<close>, \<^verbatim>\<open>scan_desc\<close>, \<^verbatim>\<open>reached_end\<close>,
  \<^verbatim>\<open>index_only_buffer\<close>); here the pointed-to cells are fields of the record, and a
  pointer that may be NULL is an option (\<open>reached_end\<close> is NULL over an index-only scan).
  \<open>scan_keys\<close> is the whole allocated array, of which the first \<open>num_scan_keys\<close> entries
  are in use.  \<open>idx_scan\<close> is the plan of the inner scan.  The last five fields are the
  inner node itself: for each of its runtime keys the position in \<open>scan_keys\<close> that the
  key's \<^verbatim>\<open>scan_key\<close> pointer addresses, the index entries in index order, the direction
  it reads them in, its filter, and the log of calls (the C code keeps no such log; it
  records what the node does, in order).
\<close>

record SkipScanState =
  scan_desc :: "IndexScanDescData option"
  num_scan_keys :: int
  scan_keys :: "ScanKeyData list"
  index_only_buffer :: "int option"
  reached_end :: "bool option"
  prev_distinct_val :: Datum
  prev_is_null :: bool
  distinct_by_val :: bool
  distinct_col_attnum :: int
  distinct_typ_len :: int
  stage :: "32 word"
  skip_qual :: ScanKeyData
  skip_qual_offset :: int
  skip_qual_removed :: bool
  index_only_scan :: bool
  idx_scan :: Plan
  runtime_keys :: "int list"
  index_tuples :: "Tuple list"
  scan_direction :: ScanDirection
  qual :: "Tuple \<Rightarrow> bool"
  calls :: "inner_call list"

section \<open>Arrays\<close>

text \<open>
  \<^verbatim>\<open>memmove(dst, src, n)\<close> inside one array, and reading or writing one cell.  C leaves
  an access outside the array undefined; here it is \<open>None\<close>.
\<close>

definition memmove :: "'a list \<Rightarrow> int \<Rightarrow> int \<Rightarrow> int \<Rightarrow> 'a list option" where
  "memmove xs dst src n =
     (if 0 \<le> dst \<and> 0 \<le> src \<and> 0 \<le> n \<and> dst + n \<le> int (length xs) \<and> src + n \<le> int (length xs)
      then Some (take (nat dst) xs @ take (nat n) (drop (nat src) xs) @ drop (nat (dst + n)) xs)
      else None)"

definition array_get :: "'a list \<Rightarrow> int \<Rightarrow> 'a option" where
  "array_get xs i = (if 0 \<le> i \<and> i < int (length xs) then Some (xs ! nat i) else None)"

definition array_set :: "'a list \<Rightarrow> int \<Rightarrow> 'a \<Rightarrow> 'a list option" where
  "array_set xs i v = (if 0 \<le> i \<and> i < int (length xs) then Some (xs[nat i := v]) else None)"

section \<open>Small accessor functions\<close>

definition skip_scan_is_searching_for_first_val :: "SkipScanState \<Rightarrow> bool" where
  "skip_scan_is_searching_for_first_val state = (stage state = SkipScanSearchingForFirst)"

definition skip_scan_state_found_null :: "SkipScanState \<Rightarrow> bool" where
  "skip_scan_state_found_null state = (stage state AND SkipScanFoundNull \<noteq> 0)"

definition skip_scan_state_found_val :: "SkipScanState \<Rightarrow> bool" where
  "skip_scan_state_found_val state = (stage state AND SkipScanFoundVal \<noteq> 0)"

definition skip_scan_state_found_everything :: "SkipScanState \<Rightarrow> bool" where
  "skip_scan_state_found_everything state =
     (stage state AND SkipScanFoundNullAndVal = SkipScanFoundNullAndVal)"

definition skip_scan_state_is_searching_for_null :: "SkipScanState \<Rightarrow> bool" where
  "skip_scan_state_is_searching_for_null state =
     (stage state AND SkipScanSearchingForNull = SkipScanSearchingForNull)"

definition skip_scan_state_is_searching_for_val :: "SkipScanState \<Rightarrow> bool" where
  "skip_scan_state_is_searching_for_val state =
     (stage state AND SkipScanSearchingForVal = SkipScanSearchingForVal)"

definition skip_scan_is_finished :: "SkipScanState \<Rightarrow> bool" where
  "skip_scan_is_finished state =
     (stage state AND SkipScanFoundNullAndVal = 0 \<or>
      (skip_scan_state_is_searching_for_val state \<and> \<not> skip_scan_state_found_val state) \<or>
      (skip_scan_state_is_searching_for_null state \<and> \<not> skip_scan_state_found_null state))"

definition skip_scan_state_get_scandesc :: "SkipScanState \<Rightarrow> IndexScanDescData option" where
  "skip_scan_state_get_scandesc state = scan_desc state"

definition skip_scan_state_get_scankeys :: "SkipScanState \<Rightarrow> ScanKeyData list" where
  "skip_scan_state_get_scankeys state = scan_keys state"

text \<open>The result is the position of the skip key in the array (the C function returns its address).\<close>

definition skip_scan_state_get_skipkey :: "SkipScanState \<Rightarrow> error + int" where
  "skip_scan_state_get_skipkey state =
     (if skip_qual_removed state then Inl (Assert_failed ''!state->skip_qual_removed'')
      else if \<not> num_scan_keys state > 0 then Inl (Assert_failed ''*state->num_scan_keys > 0'')
      else Inr (skip_qual_offset state))"

section \<open>Removing and re-adding the skip qual\<close>

definition skip_scan_state_remove_skip_qual :: "SkipScanState \<Rightarrow> error + SkipScanState" where
  "skip_scan_state_remove_skip_qual state =
     (if \<not> num_scan_keys state \<ge> 1 then Inl (Assert_failed ''*state->num_scan_keys >= 1'')
      else if skip_qual_removed state then Inl (Assert_failed ''!state->skip_qual_removed'')
      else case skip_scan_state_get_skipkey state of
        Inl e \<Rightarrow> Inl e
      | Inr start \<Rightarrow>
         (case array_get (scan_keys state) start of
            None \<Rightarrow> Inl Out_of_bounds
          | Some k \<Rightarrow>
             (let keys_to_move = num_scan_keys state - skip_qual_offset state - 1 in
              case (if keys_to_move > 0
                    then memmove (scan_keys state) start (start + 1) keys_to_move
                    else Some (scan_keys state)) of
                None \<Rightarrow> Inl Out_of_bounds
              | Some ks \<Rightarrow>
                  Inr (state\<lparr>skip_qual := k, scan_keys := ks,
                              num_scan_keys := num_scan_keys state - 1,
                              skip_qual_removed := True\<rparr>))))"

definition skip_scan_state_readd_skip_qual_if_needed ::
    "SkipScanState \<Rightarrow> error + (bool \<times> SkipScanState)" where
  "skip_scan_state_readd_skip_qual_if_needed state =
     (if skip_qual_removed state then
        (let s1 = state\<lparr>skip_qual_removed := False\<rparr>;
             keys_to_move = num_scan_keys s1 - skip_qual_offset s1;
             s2 = s1\<lparr>num_scan_keys := num_scan_keys s1 + 1\<rparr>
         in case skip_scan_state_get_skipkey s2 of
              Inl e \<Rightarrow> Inl e
            | Inr start \<Rightarrow>
               (case (if keys_to_move > 0
                      then memmove (scan_keys s2) (start + 1) start keys_to_move
                      else Some (scan_keys s2)) of
                  None \<Rightarrow> Inl Out_of_bounds
                | Some ks \<Rightarrow>
                   (case array_set ks start (skip_qual s2) of
                      None \<Rightarrow> Inl Out_of_bounds
                    | Some ks' \<Rightarrow> Inr (True, s2\<lparr>scan_keys := ks'\<rparr>))))
      else Inr (False, state))"

section \<open>The inner index scan\<close>

text \<open>
  The inner Index(Only)Scan and the index access method belong to the host; what follows is
  their contract as far as the node relies on it.  A scan key holds on a tuple as the
  btree access method decides it: a key flagged \<open>SK_ISNULL\<close> is an IS NULL test with
  \<open>SK_SEARCHNULL\<close>, an IS NOT NULL test with \<open>SK_SEARCHNOTNULL\<close> and can never hold
  otherwise; any other key compares a non-NULL column with \<open>sk_argument\<close> by
  \<open>sk_strategy\<close>, and fails on a NULL column.
\<close>

definition index_getattr :: "Tuple \<Rightarrow> int \<Rightarrow> Datum option" where
  "index_getattr t attno =
     (if 1 \<le> attno \<and> attno \<le> int (length (index_attrs t))
      then index_attrs t ! nat (attno - 1) else None)"

definition strategy_holds :: "nat \<Rightarrow> Datum \<Rightarrow> Datum \<Rightarrow> bool" where
  "strategy_holds strategy x a =
     (if strategy = BTLessStrategyNumber then x < a
      else if strategy = BTLessEqualStrategyNumber then x \<le> a
      else if strategy = BTEqualStrategyNumber then x = a
      else if strategy = BTGreaterEqualStrategyNumber then x \<ge> a
      else if strategy = BTGreaterStrategyNumber then x > a
      else False)"

definition key_matches :: "ScanKeyData \<Rightarrow> Tuple \<Rightarrow> bool" where
  "key_matches k t =
     (if sk_flags k AND SK_ISNULL \<noteq> 0 then
        (if sk_flags k AND SK_SEARCHNULL \<noteq> 0 then index_getattr t (sk_attno k) = None
         else if sk_flags k AND SK_SEARCHNOTNULL \<noteq> 0 then index_getattr t (sk_attno k) \<noteq> None
         else False)
      else (case index_getattr t (sk_attno k) of
              None \<Rightarrow> False
            | Some x \<Rightarrow> strategy_holds (sk_strategy k) x (sk_argument k)))"

text \<open>The order in which a scan in the node's direction meets the index entries.\<close>

definition scan_order :: "SkipScanState \<Rightarrow> Tuple list" where
  "scan_order state =
     (if scan_direction state = BackwardScanDirection then rev (index_tuples state)
      else index_tuples state)"

text \<open>
  \<^verbatim>\<open>index_rescan(scan, keys, nkeys, NULL, 0)\<close> as the node calls it, with its own scan
  descriptor, key array and key count: it asserts \<open>nkeys = scan->numberOfKeys\<close>, copies
  that many keys into the descriptor and puts the scan back before the first entry.
\<close>

definition index_rescan :: "SkipScanState \<Rightarrow> error + SkipScanState" where
  "index_rescan state =
     (case skip_scan_state_get_scandesc state of
        None \<Rightarrow> Inl Out_of_bounds
      | Some d \<Rightarrow>
         if num_scan_keys state \<noteq> numberOfKeys d
         then Inl (Assert_failed ''nkeys == scan->numberOfKeys'')
         else if numberOfKeys d < 0 \<or> int (length (skip_scan_state_get_scankeys state)) < numberOfKeys d
         then Inl Out_of_bounds
         else
           (let ks = take (nat (numberOfKeys d)) (skip_scan_state_get_scankeys state)
            in Inr (state\<lparr>scan_desc := Some (d\<lparr>keyData := ks\<rparr>),
                          calls := calls state @ [Call_index_rescan ks (num_scan_keys state)]\<rparr>)))"

text \<open>
  \<^verbatim>\<open>state->idx->ps.ExecProcNode\<close>: the next tuple of the inner scan.  The node rescans
  before every fetch, so the tuple is the first one in scan order that satisfies every key
  of the descriptor and the inner node's filter.  A node without a descriptor opens one on
  its current keys, as the host's \<^verbatim>\<open>IndexNext\<close> does.  At the end of the scan the host
  sets \<^verbatim>\<open>iss_ReachedEnd\<close>, where the node has that field.
\<close>

definition ExecProcNode :: "SkipScanState \<Rightarrow> Tuple option \<times> SkipScanState" where
  "ExecProcNode state =
     (let d = (case scan_desc state of
                 Some d \<Rightarrow> d
               | None \<Rightarrow> \<lparr>numberOfKeys = num_scan_keys state,
                           keyData = take (nat (num_scan_keys state)) (scan_keys state)\<rparr>);
          result = find (\<lambda>t. list_all (\<lambda>k. key_matches k t) (keyData d) \<and> qual state t)
                        (scan_order state);
          s1 = state\<lparr>scan_desc := Some d, calls := calls state @ [Call_ExecProcNode]\<rparr>
      in (result,
          if result = None then s1\<lparr>reached_end := map_option (\<lambda>_. True) (reached_end s1)\<rparr>
          else s1))"

text \<open>
  \<^verbatim>\<open>slot_getattr\<close>: the value of a column of the slot and whether it is NULL.  The host
  asserts \<open>attnum > 0\<close> and raises an error for a column the slot does not have.
\<close>

definition slot_getattr :: "Tuple \<Rightarrow> int \<Rightarrow> error + (Datum \<times> bool)" where
  "slot_getattr slot attnum =
     (if \<not> attnum > 0 then Inl (Assert_failed ''attnum > 0'')
      else if attnum > int (length (slot_attrs slot)) then Inl (ERROR ''invalid attribute number'')
      else (case slot_attrs slot ! nat (attnum - 1) of
              None \<Rightarrow> Inr (0, True)
            | Some v \<Rightarrow> Inr (v, False)))"

text \<open>\<^verbatim>\<open>datumCopy\<close> gives a copy of the value in memory the node owns: the same value.\<close>

definition datumCopy :: "Datum \<Rightarrow> bool \<Rightarrow> int \<Rightarrow> Datum" where
  "datumCopy v typByVal typLen = v"

section \<open>Primary execution functions\<close>

text \<open>
  \<^verbatim>\<open>skip_scan_state_beginscan\<close>: ends the previous scan descriptor if there is one and
  begins a new one on the current number of scan keys.  Over an index-only scan it writes
  \<^verbatim>\<open>InvalidBuffer\<close> (0) through \<open>index_only_buffer\<close>.
\<close>

definition skip_scan_state_beginscan :: "SkipScanState \<Rightarrow> error + SkipScanState" where
  "skip_scan_state_beginscan state =
     (let old_scan_desc = skip_scan_state_get_scandesc state;
          s1 = (if old_scan_desc \<noteq> None then state\<lparr>calls := calls state @ [Call_index_endscan]\<rparr>
                else state);
          new_scan_desc = \<lparr>numberOfKeys = num_scan_keys s1, keyData = []\<rparr>;
          s2 = s1\<lparr>calls := calls s1 @ [Call_index_beginscan (num_scan_keys s1)]\<rparr>
      in if index_only_scan s2 then
           (case index_only_buffer s2 of
              None \<Rightarrow> Inl Out_of_bounds
            | Some b \<Rightarrow> Inr (s2\<lparr>index_only_buffer := Some 0, scan_desc := Some new_scan_desc\<rparr>))
         else Inr (s2\<lparr>scan_desc := Some new_scan_desc\<rparr>))"

text \<open>
  \<^verbatim>\<open>update_skip_key\<close>.  Freeing the previous copy and switching the memory context change
  no value of the state.
\<close>

definition update_skip_key :: "SkipScanState \<Rightarrow> Tuple \<Rightarrow> error + SkipScanState" where
  "update_skip_key state slot =
     (case slot_getattr slot (distinct_col_attnum state) of
        Inl e \<Rightarrow> Inl e
      | Inr (v, isnull) \<Rightarrow>
         (let s1 = state\<lparr>prev_distinct_val := v, prev_is_null := isnull\<rparr>;
              s2 = (if prev_is_null s1 then s1\<lparr>stage := stage s1 OR SkipScanFoundNull\<rparr>
                    else s1\<lparr>stage := stage s1 OR SkipScanFoundVal,
                            prev_distinct_val :=
                              datumCopy (prev_distinct_val s1) (distinct_by_val s1)
                                        (distinct_typ_len s1)\<rparr>)
          in Inr (s2\<lparr>stage := stage s2 AND NOT SkipScanSearchingForAdditional\<rparr>)))"

definition skip_scan_state_populate_skip_qual :: "SkipScanState \<Rightarrow> error + SkipScanState" where
  "skip_scan_state_populate_skip_qual state =
     (case skip_scan_state_get_skipkey state of
        Inl e \<Rightarrow> Inl e
      | Inr key \<Rightarrow>
         (case array_get (scan_keys state) key of
            None \<Rightarrow> Inl Out_of_bounds
          | Some k0 \<Rightarrow>
             (let k1 = k0\<lparr>sk_argument := prev_distinct_val state\<rparr>;
                  k2 =
                    (if skip_scan_state_is_searching_for_null state then
                       k1\<lparr>sk_flags := SK_SEARCHNULL OR SK_ISNULL\<rparr>
                     else if skip_scan_state_is_searching_for_val state then
                       k1\<lparr>sk_flags := SK_SEARCHNOTNULL OR SK_ISNULL\<rparr>
                     else if prev_is_null state then
                       (let k' = (if skip_scan_state_found_null state
                                  then k1\<lparr>sk_flags := sk_flags k1 AND NOT SK_SEARCHNULL\<rparr>
                                  else k1)
                        in k'\<lparr>sk_flags := sk_flags k' OR SK_ISNULL\<rparr>)
                     else
                       (let k' = (if skip_scan_state_found_val state
                                  then k1\<lparr>sk_flags := sk_flags k1 AND NOT SK_SEARCHNOTNULL\<rparr>
                                  else k1)
                        in k'\<lparr>sk_flags := sk_flags k' AND NOT SK_ISNULL\<rparr>))
              in Inr (state\<lparr>scan_keys := (scan_keys state)[nat key := k2]\<rparr>))))"

text \<open>
  The part of \<^verbatim>\<open>skip_scan_exec\<close> before the fetch: its two branches, on the first call
  of a generation and on every later call.
\<close>

definition skip_scan_exec_setup :: "SkipScanState \<Rightarrow> error + SkipScanState" where
  "skip_scan_exec_setup state =
     (if skip_scan_is_searching_for_first_val state then
        (if skip_scan_state_get_scandesc state \<noteq> None
         then Inl (Assert_failed ''skip_scan_state_get_scandesc(state) == NULL'')
         else case skip_scan_state_remove_skip_qual state of
                Inl e \<Rightarrow> Inl e
              | Inr s1 \<Rightarrow>
                 (case skip_scan_state_beginscan s1 of
                    Inl e \<Rightarrow> Inl e
                  | Inr s2 \<Rightarrow> index_rescan s2))
      else
        (case skip_scan_state_readd_skip_qual_if_needed state of
           Inl e \<Rightarrow> Inl e
         | Inr (skip_qual_was_removed, s1) \<Rightarrow>
            (case (if skip_qual_was_removed then skip_scan_state_beginscan s1 else Inr s1) of
               Inl e \<Rightarrow> Inl e
             | Inr s2 \<Rightarrow>
                (case skip_scan_state_populate_skip_qual s2 of
                   Inl e \<Rightarrow> Inl e
                 | Inr s3 \<Rightarrow> index_rescan s3))))"

text \<open>
  What \<^verbatim>\<open>skip_scan_search_for_null\<close> and \<^verbatim>\<open>skip_scan_search_for_nonnull\<close> do to the
  state before they call \<^verbatim>\<open>skip_scan_exec\<close> again.  Each entry is also written to the log.
\<close>

definition search_for_null_state :: "SkipScanState \<Rightarrow> SkipScanState" where
  "search_for_null_state state =
     (let s1 = state\<lparr>stage := stage state OR SkipScanSearchingForNull,
                        calls := calls state @ [Call_search_for_null]\<rparr>
      in if reached_end s1 \<noteq> None then s1\<lparr>reached_end := Some False\<rparr> else s1)"

definition search_for_nonnull_state :: "SkipScanState \<Rightarrow> SkipScanState" where
  "search_for_nonnull_state state =
     (let s1 = state\<lparr>stage := stage state OR SkipScanSearchingForVal,
                        calls := calls state @ [Call_search_for_nonnull]\<rparr>
      in if reached_end s1 \<noteq> None then s1\<lparr>reached_end := Some False\<rparr> else s1)"

subsection \<open>Stage bits\<close>

lemma bit_pow32: "k < 32 \<Longrightarrow> bit ((2::32 word) ^ k) n = (n = k)"
  by (auto simp: bit_exp_iff)

lemma bit_stage_consts:
  "bit SkipScanFoundNull n = (n = 0)"
  "bit SkipScanFoundVal n = (n = 1)"
  "bit SkipScanSearchingForAdditional n = (n = 2)"
  using bit_pow32[of 0 n] bit_pow32[of 1 n] bit_pow32[of 2 n]
  by (simp_all add: SkipScanFoundNull_def SkipScanFoundVal_def SkipScanSearchingForAdditional_def)

lemma word32_eq_iff: "((a::32 word) = b) = (\<forall>n. bit a n = bit b n)"
  using bit_eq_iff[of a b] by blast

lemma found_null_bit: "skip_scan_state_found_null s = bit (stage s) 0"
  by (auto simp add: skip_scan_state_found_null_def word32_eq_iff bit_and_iff bit_stage_consts)

lemma found_val_bit: "skip_scan_state_found_val s = bit (stage s) 1"
  by (auto simp add: skip_scan_state_found_val_def word32_eq_iff bit_and_iff bit_stage_consts)

lemma found_everything_bit:
  "skip_scan_state_found_everything s = (bit (stage s) 0 \<and> bit (stage s) 1)"
  by (auto simp add: skip_scan_state_found_everything_def SkipScanFoundNullAndVal_def
      word32_eq_iff bit_and_iff bit_or_iff bit_stage_consts)

lemma is_searching_for_null_bit:
  "skip_scan_state_is_searching_for_null s = (bit (stage s) 1 \<and> bit (stage s) 2)"
  by (auto simp add: skip_scan_state_is_searching_for_null_def SkipScanSearchingForNull_def
      word32_eq_iff bit_and_iff bit_or_iff bit_stage_consts)

lemma is_searching_for_val_bit:
  "skip_scan_state_is_searching_for_val s = (bit (stage s) 0 \<and> bit (stage s) 2)"
  by (auto simp add: skip_scan_state_is_searching_for_val_def SkipScanSearchingForVal_def
      word32_eq_iff bit_and_iff bit_or_iff bit_stage_consts)

lemma found_nothing_bit:
  "(stage s AND SkipScanFoundNullAndVal = 0) = (\<not> bit (stage s) 0 \<and> \<not> bit (stage s) 1)"
proof -
  have "(stage s AND SkipScanFoundNullAndVal = 0) =
        (\<forall>n. \<not> (bit (stage s) n \<and> (n = 1 \<or> n = 0)))"
    by (simp add: SkipScanFoundNullAndVal_def word32_eq_iff bit_and_iff bit_or_iff
        bit_stage_consts)
  also have "\<dots> = (\<not> bit (stage s) 0 \<and> \<not> bit (stage s) 1)"
    by blast
  finally show ?thesis .
qed

lemma is_finished_bit:
  "skip_scan_is_finished s =
     ((\<not> bit (stage s) 0 \<and> \<not> bit (stage s) 1) \<or> (bit (stage s) 2 \<and> \<not> (bit (stage s) 0 \<and> bit (stage s) 1)))"
  unfolding skip_scan_is_finished_def found_nothing_bit is_searching_for_val_bit
    is_searching_for_null_bit found_val_bit found_null_bit by blast

lemma bit_stage_updates:
  "bit (w OR SkipScanFoundNull) n = (bit w n \<or> n = 0)"
  "bit (w OR SkipScanFoundVal) n = (bit w n \<or> n = 1)"
  "bit (w OR SkipScanSearchingForNull) n = (bit w n \<or> n = 1 \<or> n = 2)"
  "bit (w OR SkipScanSearchingForVal) n = (bit w n \<or> n = 0 \<or> n = 2)"
  "bit (w AND NOT SkipScanSearchingForAdditional) n = (bit w n \<and> n \<noteq> 2)"
  by (auto simp add: bit_and_iff bit_or_iff bit_not_iff bit_stage_consts
      SkipScanSearchingForNull_def SkipScanSearchingForVal_def dest: bit_imp_le_length)

lemma searching_for_first_bit:
  "skip_scan_is_searching_for_first_val s = (\<forall>n. \<not> bit (stage s) n)"
  by (simp add: skip_scan_is_searching_for_first_val_def SkipScanSearchingForFirst_def word32_eq_iff)

subsection \<open>Fields the helpers leave alone\<close>

lemma remove_skip_qual_stage:
  "skip_scan_state_remove_skip_qual s = Inr s' \<Longrightarrow> stage s' = stage s"
  by (auto simp add: skip_scan_state_remove_skip_qual_def Let_def
      split: if_splits sum.splits option.splits)

lemma readd_skip_qual_stage:
  "skip_scan_state_readd_skip_qual_if_needed s = Inr (b, s') \<Longrightarrow> stage s' = stage s"
  by (auto simp add: skip_scan_state_readd_skip_qual_if_needed_def Let_def
      split: if_splits sum.splits option.splits)

lemma beginscan_stage:
  "skip_scan_state_beginscan s = Inr s' \<Longrightarrow> stage s' = stage s"
  by (auto simp add: skip_scan_state_beginscan_def Let_def
      split: if_splits sum.splits option.splits)

lemma populate_skip_qual_stage:
  "skip_scan_state_populate_skip_qual s = Inr s' \<Longrightarrow> stage s' = stage s"
  by (auto simp add: skip_scan_state_populate_skip_qual_def Let_def
      split: if_splits sum.splits option.splits)

lemma index_rescan_stage:
  "index_rescan s = Inr s' \<Longrightarrow> stage s' = stage s"
  by (auto simp add: index_rescan_def Let_def
      split: if_splits sum.splits option.splits)

lemma ExecProcNode_stage:
  "ExecProcNode s = (r, s') \<Longrightarrow> stage s' = stage s"
  by (auto simp add: ExecProcNode_def Let_def split: if_splits)

lemma exec_setup_stage:
  "skip_scan_exec_setup s = Inr s' \<Longrightarrow> stage s' = stage s"
  unfolding skip_scan_exec_setup_def
  by (auto split: if_splits sum.splits prod.splits
      dest!: remove_skip_qual_stage readd_skip_qual_stage beginscan_stage
        populate_skip_qual_stage index_rescan_stage)

text \<open>
  \<^verbatim>\<open>skip_scan_exec\<close>, with \<^verbatim>\<open>skip_scan_search_for_null\<close> and
  \<^verbatim>\<open>skip_scan_search_for_nonnull\<close>, which call it back.  The result is the tuple returned
  (\<open>None\<close> for the empty slot that ends the scan) and the state left behind.
  \<^verbatim>\<open>ExecMaterializeSlot\<close> changes no value of the tuple.
\<close>

function skip_scan_exec :: "SkipScanState \<Rightarrow> error + (Tuple option \<times> SkipScanState)"
  and skip_scan_search_for_null :: "SkipScanState \<Rightarrow> error + (Tuple option \<times> SkipScanState)"
  and skip_scan_search_for_nonnull :: "SkipScanState \<Rightarrow> error + (Tuple option \<times> SkipScanState)"
where
  "skip_scan_exec state =
     (case skip_scan_exec_setup state of
        Inl e \<Rightarrow> Inl e
      | Inr s1 \<Rightarrow>
         (case ExecProcNode s1 of
            (Some result, s2) \<Rightarrow>
              (case update_skip_key s2 result of
                 Inl e \<Rightarrow> Inl e
               | Inr s3 \<Rightarrow> Inr (Some result, s3))
          | (None, s2) \<Rightarrow>
              if skip_scan_state_found_everything s2 then Inr (None, s2)
              else if skip_scan_is_finished s2 then Inr (None, s2)
              else if \<not> skip_scan_state_found_null s2 then skip_scan_search_for_null s2
              else if \<not> skip_scan_state_found_val s2 then skip_scan_search_for_nonnull s2
              else Inr (None, s2)))"
| "skip_scan_search_for_null state =
     (if \<not> skip_scan_state_found_val state
      then Inl (Assert_failed ''skip_scan_state_found_val(state)'')
      else skip_scan_exec (search_for_null_state state))"
| "skip_scan_search_for_nonnull state =
     (if \<not> skip_scan_state_found_null state
      then Inl (Assert_failed ''skip_scan_state_found_null(state)'')
      else skip_scan_exec (search_for_nonnull_state state))"
  by pat_completeness auto
termination
  apply (relation "measure (\<lambda>x. case x of Inl s \<Rightarrow> (if bit (stage s) 2 then 0 else 2) | Inr _ \<Rightarrow> 1)")
      apply simp
  subgoal for state b x y
    using exec_setup_stage[of state b] ExecProcNode_stage[of b None y]
    by (auto simp add: is_finished_bit found_everything_bit)
  subgoal for state b x y
    using exec_setup_stage[of state b] ExecProcNode_stage[of b None y]
    by (auto simp add: is_finished_bit found_everything_bit)
  subgoal for state
    by (simp add: search_for_null_state_def Let_def bit_stage_updates)
  subgoal for state
    by (simp add: search_for_nonnull_state_def Let_def bit_stage_updates)
  done


declare skip_scan_exec.simps [simp del]
declare skip_scan_search_for_null.simps [simp del]
declare skip_scan_search_for_nonnull.simps [simp del]

section \<open>Begin, rescan and end\<close>

text \<open>
  What \<^verbatim>\<open>ExecInitNode\<close> hands back for an Index(Only)Scan plan: the fields of
  \<^verbatim>\<open>IndexScanState\<close> (or \<^verbatim>\<open>IndexOnlyScanState\<close>) that \<^verbatim>\<open>skip_scan_begin\<close> reads, and
  what the node scans.  The executor state supplies the index entries, the strategy of an
  operator in the index's operator family and the evaluation of a filter.
\<close>

record IndexScanInit =
  iss_ScanKeys :: "ScanKeyData list"
  iss_NumScanKeys :: int
  iss_RuntimeKeys :: "int list"
  iss_NumRuntimeKeys :: int
  iss_NumOrderByKeys :: int
  iss_ReachedEnd :: bool
  iss_VMBuffer :: int
  iss_tuples :: "Tuple list"
  iss_direction :: ScanDirection
  iss_qual :: "Tuple \<Rightarrow> bool"

record EState =
  es_index_tuples :: "Tuple list"
  es_op_strategy :: "Oid \<Rightarrow> nat"
  es_eval_qual :: "Expr list \<Rightarrow> Tuple \<Rightarrow> bool"

fun strip_relabel :: "Expr \<Rightarrow> Expr" where
  "strip_relabel (RelabelType e) = strip_relabel e"
| "strip_relabel e = e"

text \<open>
  The host's \<^verbatim>\<open>ExecIndexBuildScanKeys\<close> on the index conditions the planner of this
  module can meet: one scan key per condition, in the order of the list.  A condition is an
  operator with the index column (a \<open>Var\<close> of \<open>INDEX_VAR\<close>) on the left; a constant on
  the right becomes the key's argument, anything else a runtime key whose argument is
  computed later.
\<close>

definition ExecIndexBuildScanKey :: "(Oid \<Rightarrow> nat) \<Rightarrow> Expr \<Rightarrow> error + (ScanKeyData \<times> bool)" where
  "ExecIndexBuildScanKey op_strategy cl =
     (case cl of
        OpExpr opn rt rs oc ic as \<Rightarrow>
          (case as of
             [l, r] \<Rightarrow>
               (case strip_relabel l of
                  Var vn va vt vm vc vl \<Rightarrow>
                    if vn \<noteq> INDEX_VAR then Inl (ERROR ''indexqual does not have key on left side'')
                    else (case strip_relabel r of
                            Const ct cm cc v isnull \<Rightarrow>
                              Inr (\<lparr>sk_flags = (if isnull then SK_ISNULL else 0), sk_attno = va,
                                    sk_strategy = op_strategy opn, sk_argument = v\<rparr>, False)
                          | _ \<Rightarrow>
                              Inr (\<lparr>sk_flags = 0, sk_attno = va,
                                    sk_strategy = op_strategy opn, sk_argument = 0\<rparr>, True))
                | _ \<Rightarrow> Inl (ERROR ''indexqual does not have key on left side''))
           | _ \<Rightarrow> Inl (ERROR ''indexqual does not have key on left side''))
      | _ \<Rightarrow> Inl (ERROR ''unsupported indexqual type''))"

fun ExecIndexBuildScanKeys ::
    "(Oid \<Rightarrow> nat) \<Rightarrow> Expr list \<Rightarrow> int \<Rightarrow> error + (ScanKeyData list \<times> int list)" where
  "ExecIndexBuildScanKeys op_strategy [] j = Inr ([], [])"
| "ExecIndexBuildScanKeys op_strategy (cl # cls) j =
     (case ExecIndexBuildScanKey op_strategy cl of
        Inl e \<Rightarrow> Inl e
      | Inr (k, is_runtime) \<Rightarrow>
         (case ExecIndexBuildScanKeys op_strategy cls (j + 1) of
            Inl e \<Rightarrow> Inl e
          | Inr (ks, rks) \<Rightarrow> Inr (k # ks, if is_runtime then j # rks else rks)))"

definition ExecInitIndexScan ::
    "EState \<Rightarrow> PlanFields \<Rightarrow> Expr list \<Rightarrow> Expr list \<Rightarrow> ScanDirection \<Rightarrow> error + IndexScanInit" where
  "ExecInitIndexScan estate pf quals orderbys dir =
     (case ExecIndexBuildScanKeys (es_op_strategy estate) quals 0 of
        Inl e \<Rightarrow> Inl e
      | Inr (ks, rks) \<Rightarrow>
          Inr \<lparr>iss_ScanKeys = ks, iss_NumScanKeys = int (length ks),
               iss_RuntimeKeys = rks, iss_NumRuntimeKeys = int (length rks),
               iss_NumOrderByKeys = int (length orderbys),
               iss_ReachedEnd = False, iss_VMBuffer = 0,
               iss_tuples = es_index_tuples estate, iss_direction = dir,
               iss_qual = es_eval_qual estate (plan_qual pf)\<rparr>)"

text \<open>
  The loop of \<^verbatim>\<open>skip_scan_state_fixup_qual_order\<close> that finds the place of the skip
  qual: it stops at the end of the keys or at the first key on a column that is not before
  the skip qual's.
\<close>

function fixup_find_offset :: "SkipScanState \<Rightarrow> error + SkipScanState" where
  "fixup_find_offset state =
     (let i = skip_qual_offset state + 1 in
      if i \<ge> num_scan_keys state then Inr state
      else (case array_get (scan_keys state) i of
              None \<Rightarrow> Inl Out_of_bounds
            | Some sk \<Rightarrow>
                if sk_attno sk \<ge> sk_attno (skip_qual state) then Inr state
                else fixup_find_offset (state\<lparr>skip_qual_offset := skip_qual_offset state + 1\<rparr>)))"
  by pat_completeness auto
termination
  by (relation "measure (\<lambda>s. nat (num_scan_keys s - skip_qual_offset s))") auto

declare fixup_find_offset.simps [simp del]

definition skip_scan_state_fixup_qual_order :: "SkipScanState \<Rightarrow> error + SkipScanState" where
  "skip_scan_state_fixup_qual_order state =
     (case fixup_find_offset state of
        Inl e \<Rightarrow> Inl e
      | Inr s1 \<Rightarrow>
          if \<not> skip_qual_offset s1 < num_scan_keys s1
          then Inl (Assert_failed ''state->skip_qual_offset < *state->num_scan_keys'')
          else if skip_qual_offset s1 > 0 then
            (case memmove (scan_keys s1) 0 1 (skip_qual_offset s1) of
               None \<Rightarrow> Inl Out_of_bounds
             | Some ks \<Rightarrow>
                (case array_set ks (skip_qual_offset s1) (skip_qual s1) of
                   None \<Rightarrow> Inl Out_of_bounds
                 | Some ks' \<Rightarrow>
                     Inr (s1\<lparr>scan_keys := ks',
                             runtime_keys :=
                               map (\<lambda>scan_key. if scan_key \<le> skip_qual_offset s1
                                                then scan_key - 1 else scan_key)
                                   (runtime_keys s1)\<rparr>)))
          else Inr s1)"

text \<open>
  \<^verbatim>\<open>skip_scan_begin\<close>.  The inner plan is initialised by the host's \<^verbatim>\<open>ExecInitNode\<close>;
  the node then points into the inner node's fields.
\<close>

definition skip_scan_begin :: "SkipScanState \<Rightarrow> EState \<Rightarrow> error + SkipScanState" where
  "skip_scan_begin state estate =
     (case (case idx_scan state of
              IndexScan pf quals qualsorig orderbys dir \<Rightarrow>
                (case ExecInitIndexScan estate pf quals orderbys dir of
                   Inl e \<Rightarrow> Inl e
                 | Inr idx \<Rightarrow>
                     if iss_NumOrderByKeys idx > 0
                     then Inl (ERROR ''cannot SkipScan with OrderByKeys'')
                     else Inr (state\<lparr>index_only_scan := False,
                                    scan_keys := iss_ScanKeys idx,
                                    num_scan_keys := iss_NumScanKeys idx,
                                    scan_desc := None,
                                    index_only_buffer := None,
                                    reached_end := Some (iss_ReachedEnd idx),
                                    runtime_keys := iss_RuntimeKeys idx,
                                    index_tuples := iss_tuples idx,
                                    scan_direction := iss_direction idx,
                                    qual := iss_qual idx\<rparr>))
            | IndexOnlyScan pf quals orderbys dir \<Rightarrow>
                (case ExecInitIndexScan estate pf quals orderbys dir of
                   Inl e \<Rightarrow> Inl e
                 | Inr idx \<Rightarrow>
                     if iss_NumOrderByKeys idx > 0
                     then Inl (ERROR ''cannot SkipScan with OrderByKeys'')
                     else Inr (state\<lparr>index_only_scan := True,
                                    scan_keys := iss_ScanKeys idx,
                                    num_scan_keys := iss_NumScanKeys idx,
                                    scan_desc := None,
                                    index_only_buffer := Some (iss_VMBuffer idx),
                                    reached_end := None,
                                    runtime_keys := iss_RuntimeKeys idx,
                                    index_tuples := iss_tuples idx,
                                    scan_direction := iss_direction idx,
                                    qual := iss_qual idx\<rparr>))
            | _ \<Rightarrow> Inl (ERROR ''unknown subscan type in SkipScan'')) of
        Inl e \<Rightarrow> Inl e
      | Inr s1 \<Rightarrow>
         (let s2 = s1\<lparr>prev_distinct_val := 0, prev_is_null := True,
                      stage := SkipScanSearchingForFirst, skip_qual_removed := False\<rparr>
          in if num_scan_keys s2 \<le> 0 then Inr s2
             else (case array_get (scan_keys s2) 0 of
                     None \<Rightarrow> Inl Out_of_bounds
                   | Some k \<Rightarrow>
                       skip_scan_state_fixup_qual_order
                         (s2\<lparr>skip_qual := k, skip_qual_offset := 0\<rparr>))))"

text \<open>
  The host's \<^verbatim>\<open>ExecReScan\<close> on the inner node, called while the node has no scan
  descriptor: it clears \<^verbatim>\<open>iss_ReachedEnd\<close> where the node has that field.  The
  parameters of the outer query are taken to be unchanged.
\<close>

definition ExecReScan :: "SkipScanState \<Rightarrow> SkipScanState" where
  "ExecReScan state =
     state\<lparr>reached_end := map_option (\<lambda>_. False) (reached_end state),
           calls := calls state @ [Call_ExecReScan]\<rparr>"

definition skip_scan_rescan :: "SkipScanState \<Rightarrow> error + SkipScanState" where
  "skip_scan_rescan state =
     (let old_scan_desc = skip_scan_state_get_scandesc state;
          s1 = (if old_scan_desc \<noteq> None then state\<lparr>calls := calls state @ [Call_index_endscan]\<rparr>
                else state);
          s2 = s1\<lparr>scan_desc := None\<rparr>
      in case skip_scan_state_readd_skip_qual_if_needed s2 of
           Inl e \<Rightarrow> Inl e
         | Inr (was_removed, s3) \<Rightarrow>
             Inr ((ExecReScan s3)\<lparr>prev_distinct_val := 0, prev_is_null := True,
                                   stage := SkipScanSearchingForFirst\<rparr>))"

definition skip_scan_end :: "SkipScanState \<Rightarrow> error + SkipScanState" where
  "skip_scan_end state =
     (if index_only_scan state then
        (case index_only_buffer state of
           None \<Rightarrow> Inl Out_of_bounds
         | Some b \<Rightarrow>
             Inr (state\<lparr>calls := calls state @ (if b \<noteq> 0 then [Call_ReleaseBuffer] else [])
                                        @ [Call_ExecEndNode]\<rparr>))
      else Inr (state\<lparr>calls := calls state @ [Call_ExecEndNode]\<rparr>))"

text \<open>
  \<^verbatim>\<open>ts_skip_scan_state_create\<close>: a zeroed node that takes the inner plan and the three
  integers of \<^verbatim>\<open>custom_private\<close> from the \<open>CustomScan\<close> plan.
\<close>

definition ts_skip_scan_state_create :: "Plan \<Rightarrow> error + SkipScanState" where
  "ts_skip_scan_state_create cscan =
     (case cscan of
        CustomScan pf tlist (p # ps) (c1 # c2 # c3 # cs) m \<Rightarrow>
          Inr \<lparr>scan_desc = None, num_scan_keys = 0, scan_keys = [], index_only_buffer = None,
               reached_end = None, prev_distinct_val = 0, prev_is_null = False,
               distinct_by_val = (c2 \<noteq> 0), distinct_col_attnum = c1, distinct_typ_len = c3,
               stage = 0,
               skip_qual = \<lparr>sk_flags = 0, sk_attno = 0, sk_strategy = 0, sk_argument = 0\<rparr>,
               skip_qual_offset = 0, skip_qual_removed = False, index_only_scan = False,
               idx_scan = p, runtime_keys = [], index_tuples = [],
               scan_direction = NoMovementScanDirection, qual = (\<lambda>t. True), calls = []\<rparr>
      | _ \<Rightarrow> Inl Out_of_bounds)"

section \<open>One generation\<close>

text \<open>
  The caller of the node pulls tuples until the node hands back the empty slot.  \<open>pull\<close>
  does so for at most the given number of calls; \<open>None\<close> means that the calls ran out
  before the empty slot came.
\<close>

fun pull :: "nat \<Rightarrow> SkipScanState \<Rightarrow> (error + (Tuple list \<times> SkipScanState)) option" where
  "pull 0 state = None"
| "pull (Suc n) state =
     (case skip_scan_exec state of
        Inl e \<Rightarrow> Some (Inl e)
      | Inr (None, s1) \<Rightarrow> Some (Inr ([], s1))
      | Inr (Some t, s1) \<Rightarrow>
          (case pull n s1 of
             None \<Rightarrow> None
           | Some (Inl e) \<Rightarrow> Some (Inl e)
           | Some (Inr (ts, s2)) \<Rightarrow> Some (Inr (t # ts, s2))))"

section \<open>Utilities of planner.c\<close>

definition find_ec_member_for_tle :: "EquivalenceClass \<Rightarrow> TargetEntry \<Rightarrow> EquivalenceMember option" where
  "find_ec_member_for_tle ec tle =
     find (\<lambda>em. \<not> em_is_const em \<and> strip_relabel (em_expr em) = strip_relabel (expr tle))
          (ec_members ec)"

text \<open>
  \<^verbatim>\<open>find_column_from_tlist\<close>: the \<open>resno\<close> of the target entry that carries the
  pathkey's expression, or \<open>None\<close> for the NULL result.  For a volatile equivalence class the
  entry is looked up by its sort reference with the host's \<^verbatim>\<open>get_sortgroupref_tle\<close>, which
  raises an error when there is none.
\<close>

definition find_column_from_tlist :: "TargetEntry list \<Rightarrow> PathKey \<Rightarrow> error + int option" where
  "find_column_from_tlist target_list pathkey =
     (let ec = pk_eclass pathkey in
      if ec_has_volatile ec then
        (if ec_sortref ec = 0 then Inl (ERROR ''volatile EquivalenceClass has no sortref'')
         else (case find (\<lambda>tle. ressortgroupref tle = ec_sortref ec) target_list of
                 None \<Rightarrow> Inl (ERROR ''ORDER/GROUP BY expression not found in targetlist'')
               | Some tle \<Rightarrow>
                   if length (ec_members ec) \<noteq> 1
                   then Inl (Assert_failed ''list_length(ec->ec_members) == 1'')
                   else Inr (Some (resno tle))))
      else (case find (\<lambda>tle. find_ec_member_for_tle ec tle \<noteq> None) target_list of
              None \<Rightarrow> Inr None
            | Some tle \<Rightarrow> Inr (Some (resno tle))))"

section \<open>SkipScanPath creation\<close>

text \<open>
  The strategy of the comparison that \<^verbatim>\<open>create_index_skip_scan_path\<close> asks the operator
  family for: ``greater than'' along an ascending column, ``less than'' along a descending
  one, and the other way round when the index is scanned backwards.
\<close>

definition skip_qual_strategy :: "bool \<Rightarrow> ScanDirection \<Rightarrow> nat" where
  "skip_qual_strategy rev_sort scandir =
     (let strategy = (if rev_sort then BTLessStrategyNumber else BTGreaterStrategyNumber)
      in if scandir = BackwardScanDirection
         then (if strategy = BTLessStrategyNumber then BTGreaterStrategyNumber
               else BTLessStrategyNumber)
         else strategy)"

definition create_index_skip_scan_path ::
    "PlannerInfo \<Rightarrow> Path \<Rightarrow> Path \<Rightarrow> bool \<Rightarrow> error + Path option" where
  "create_index_skip_scan_path root unique_path ipath for_append =
     (case ipath of
        IndexPath ipf idx_info orderbys scandir \<Rightarrow>
          (case sortopfamily idx_info of
             None \<Rightarrow> Inr None
           | Some opfamilies \<Rightarrow>
              if orderbys \<noteq> [] then Inr None
              else if \<not> numkeys unique_path \<le> nkeycolumns idx_info
              then Inl (Assert_failed ''unique_path->numkeys <= index_path->indexinfo->nkeycolumns'')
              else
               (let cpath_path = (if for_append then ipf else path unique_path)
                                   \<lparr>pathtype := T_CustomScan\<rparr>;
                    rel_index = rel_relid idx_info;
                    rel_oid = simple_rte_relid root rel_index
                in case pathkeys ipf of
                     [] \<Rightarrow> Inl Out_of_bounds
                   | first_pathkey # other_pathkeys \<Rightarrow>
                      (case find_column_from_tlist (indextlist idx_info) first_pathkey of
                         Inl e \<Rightarrow> Inl e
                       | Inr None \<Rightarrow> Inl (ERROR ''could not find col for SkipScan'')
                       | Inr (Some col_num) \<Rightarrow>
                          (let col = col_num - 1 in
                           case array_get (indexkeys idx_info) col of
                             None \<Rightarrow> Inl Out_of_bounds
                           | Some table_col \<Rightarrow>
                              if table_col = 0 then Inr None
                              else
                               (case SearchSysCache2_ATTNUM root rel_oid table_col of
                                  None \<Rightarrow> Inr None
                                | Some att_tup \<Rightarrow>
                                   (let column_type = atttypid att_tup;
                                        column_typmod = atttypmod att_tup;
                                        column_collation = attcollation att_tup
                                    in if column_type = InvalidOid then Inr None
                                       else
                                        (case (array_get opfamilies col,
                                               array_get (reverse_sort idx_info) col,
                                               array_get (indexcollations idx_info) col) of
                                           (Some btree_opfamily, Some rev_sort, Some coll) \<Rightarrow>
                                            (let strategy = skip_qual_strategy rev_sort scandir;
                                                 comparator = get_opfamily_member root btree_opfamily
                                                                column_type column_type strategy
                                             in if comparator = InvalidOid then Inr None
                                                else
                                                 (let prev_val = Const column_type column_typmod
                                                                   column_collation 0 True;
                                                      current_val = Var (int rel_index) table_col
                                                                      column_type column_typmod
                                                                      column_collation 0;
                                                      comparsion_expr =
                                                        OpExpr comparator BOOLOID False InvalidOid coll
                                                               [current_val, prev_val]
                                                  in Inr (Some (SkipScanPath cpath_path ipath
                                                                  \<lparr>clause = comparsion_expr\<rparr> col
                                                                  (attlen att_tup) (attbyval att_tup)))))
                                         | _ \<Rightarrow> Inl Out_of_bounds)))))))
      | _ \<Rightarrow> Inl (Assert_failed ''castNode(IndexPath, path)''))"





section \<open>SkipScan plan creation\<close>

text \<open>
  \<^verbatim>\<open>skip_scan_plan_create\<close>.  The host's \<^verbatim>\<open>create_plan\<close> is a parameter.  The updated
  inner plan is the one element of \<^verbatim>\<open>custom_plans\<close>.
\<close>

definition skip_scan_plan_create :: "(Path \<Rightarrow> Plan) \<Rightarrow> Path \<Rightarrow> error + Plan" where
  "skip_scan_plan_create create_plan best_path =
     (case best_path of
        SkipScanPath bpf ipath rinfo indexcol typ_len by_val \<Rightarrow>
          (let stripped_skip_clauses = [clause rinfo] in
           case clause rinfo of
             OpExpr opn rt rs oc ic as \<Rightarrow>
               if length as \<noteq> 2 then Inl (Assert_failed ''list_length(op->args) == 2'')
               else
                (case array_get (indexkeys (indexinfo ipath)) indexcol of
                   None \<Rightarrow> Inl Out_of_bounds
                 | Some key \<Rightarrow>
                    if key = 0 then Inl (Assert_failed ''index->indexkeys[indexcol] != 0'')
                    else
                     (case hd as of
                        Var vn va vt vm vc vl \<Rightarrow>
                          if \<not> (vn = int (rel_relid (indexinfo ipath)) \<and> va = key)
                          then Inl (Assert_failed ''varno == relid && varattno == indexkeys[indexcol]'')
                          else
                           (let result = Var INDEX_VAR (indexcol + 1) vt vm vc vl;
                                fixed_skip_clauses = [OpExpr opn rt rs oc ic (result # tl as)]
                            in case (case create_plan ipath of
                                       IndexScan ppf iq iqo iob dir \<Rightarrow>
                                         Inr (IndexScan ppf (fixed_skip_clauses @ iq)
                                                (stripped_skip_clauses @ iqo) iob dir)
                                     | IndexOnlyScan ppf iq iob dir \<Rightarrow>
                                         Inr (IndexOnlyScan ppf (fixed_skip_clauses @ iq) iob dir)
                                     | _ \<Rightarrow> Inl (ERROR ''bad subplan type for SkipScan'')) of
                                 Inl e \<Rightarrow> Inl e
                               | Inr idx_plan \<Rightarrow>
                                  (case pathkeys bpf of
                                     [] \<Rightarrow> Inl Out_of_bounds
                                   | pk # pks \<Rightarrow>
                                      (case find_column_from_tlist (targetlist (plan idx_plan)) pk of
                                         Inl e \<Rightarrow> Inl e
                                       | Inr None \<Rightarrow>
                                           Inl (ERROR ''Invalid skip column in SkipScanPath; could not find in tlist'')
                                       | Inr (Some distinct_columns) \<Rightarrow>
                                           Inr (CustomScan
                                                  ((plan idx_plan)\<lparr>plan_qual := [],
                                                      plan_parallel_safe := False,
                                                      plan_parallel_aware := False\<rparr>)
                                                  (targetlist (plan idx_plan))
                                                  [idx_plan]
                                                  [distinct_columns, (if by_val then 1 else 0), typ_len]
                                                  ''SkipScan''))))
                      | _ \<Rightarrow> Inl (Assert_failed ''castNode(Var, linitial(op->args))'')))
           | _ \<Rightarrow> Inl (Assert_failed ''castNode(OpExpr, rinfo->clause)''))
      | _ \<Rightarrow> Inl (Assert_failed ''best_path is a SkipScanPath''))"

section \<open>Example inputs\<close>

text \<open>
  A node over three scan keys whose skip qual (the key on column 2 with the NULL
  placeholder as its argument) stands at offset 1, behind a key on column 1.
\<close>

definition example_keys :: "ScanKeyData list" where
  "example_keys =
     [\<lparr>sk_flags = 0, sk_attno = 1, sk_strategy = 3, sk_argument = 2\<rparr>,
      \<lparr>sk_flags = 1, sk_attno = 2, sk_strategy = 5, sk_argument = 0\<rparr>,
      \<lparr>sk_flags = 0, sk_attno = 2, sk_strategy = 1, sk_argument = 9\<rparr>]"

definition example_state :: SkipScanState where
  "example_state =
     \<lparr>scan_desc = None, num_scan_keys = 3, scan_keys = example_keys,
      index_only_buffer = None, reached_end = Some False,
      prev_distinct_val = 0, prev_is_null = True,
      distinct_by_val = True, distinct_col_attnum = 2, distinct_typ_len = 4,
      stage = 0, skip_qual = example_keys ! 1, skip_qual_offset = 1,
      skip_qual_removed = False, index_only_scan = False,
      idx_scan = OtherPlan T_IndexScan, runtime_keys = [],
      index_tuples = [], scan_direction = ForwardScanDirection,
      qual = (\<lambda>t. True), calls = []\<rparr>"

section \<open>Moving array cells\<close>

lemma memmove_nth:
  assumes "memmove xs dst src n = Some ys" "0 \<le> j" "j < int (length xs)"
  shows "ys ! nat j = (if dst \<le> j \<and> j < dst + n then xs ! nat (src + (j - dst)) else xs ! nat j)"
    and "length ys = length xs"
proof -
  from assms(1) have b: "0 \<le> dst" "0 \<le> src" "0 \<le> n" "dst + n \<le> int (length xs)" "src + n \<le> int (length xs)"
    and ys: "ys = take (nat dst) xs @ take (nat n) (drop (nat src) xs) @ drop (nat (dst + n)) xs"
    by (simp_all add: memmove_def split: if_splits)
  show "length ys = length xs" using b unfolding ys by simp
  show "ys ! nat j = (if dst \<le> j \<and> j < dst + n then xs ! nat (src + (j - dst)) else xs ! nat j)"
  proof (cases "j < dst")
    case True
    then show ?thesis using b assms(2,3) unfolding ys by (simp add: nth_append) 
  next
    case False
    note nd = this
    show ?thesis
    proof (cases "j < dst + n")
      case True
      have l1: "length (take (nat dst) xs) = nat dst" using b by simp
      have l2: "length (take (nat n) (drop (nat src) xs)) = nat n" using b by simp
      have "ys ! nat j = (take (nat n) (drop (nat src) xs)) ! (nat j - nat dst)"
        unfolding ys using nd True b assms(2) by (simp only: nth_append l1 l2) (simp; linarith)
      also have "\<dots> = xs ! (nat src + (nat j - nat dst))"
        using nd True b assms(2) by (subst nth_take) (simp; linarith)+
      also have "nat src + (nat j - nat dst) = nat (src + (j - dst))" using nd b assms(2) by linarith
      finally show ?thesis using nd True by simp
    next
      case False
      have l1: "length (take (nat dst) xs) = nat dst" using b by simp
      have l2: "length (take (nat n) (drop (nat src) xs)) = nat n" using b by simp
      have "ys ! nat j = drop (nat (dst + n)) xs ! (nat j - nat dst - nat n)"
        unfolding ys using nd False b assms(2) by (simp only: nth_append l1 l2) (simp; linarith)
      also have "\<dots> = xs ! (nat (dst + n) + (nat j - nat dst - nat n))"
        using b assms by (subst nth_drop) simp_all
      also have "nat (dst + n) + (nat j - nat dst - nat n) = nat j" using nd False b assms(2) by linarith
      finally show ?thesis using nd False by simp
    qed
  qed
qed

lemma memmove_left_right:
  assumes "0 \<le> off" "0 < m" "off + m < int (length xs)"
  shows "\<exists>ys zs. memmove xs off (off + 1) m = Some ys
           \<and> memmove ys (off + 1) off m = Some zs
           \<and> array_set zs off (xs ! nat off) = Some xs"
proof -
  obtain ys where ys: "memmove xs off (off + 1) m = Some ys"
    using assms by (simp add: memmove_def)
  have lys: "length ys = length xs" using memmove_nth(2) ys assms by fastforce
  obtain zs where zs: "memmove ys (off + 1) off m = Some zs"
    using assms lys by (simp add: memmove_def)
  have lzs: "length zs = length xs" using memmove_nth(2) zs assms lys by fastforce
  have "zs[nat off := xs ! nat off] = xs"
  proof (rule nth_equalityI)
    show "length (zs[nat off := xs ! nat off]) = length xs" using lzs by simp
  next
    fix i assume "i < length (zs[nat off := xs ! nat off])"
    then have i: "i < length xs" using lzs by simp
    show "zs[nat off := xs ! nat off] ! i = xs ! i"
    proof (cases "i = nat off")
      case True
      then show ?thesis using lzs i by simp
    next
      case False
      have i0: "0 \<le> int i" "int i < int (length ys)" "int i < int (length xs)" using i lys by simp_all
      have "zs[nat off := xs ! nat off] ! i = zs ! nat (int i)" using False by simp
      also have "\<dots> = (if off + 1 \<le> int i \<and> int i < off + 1 + m then ys ! nat (off + (int i - (off + 1))) else ys ! nat (int i))"
        by (rule memmove_nth(1)[OF zs i0(1) i0(2)])
      also have "\<dots> = xs ! i"
      proof (cases "off + 1 \<le> int i \<and> int i < off + 1 + m")
        case True
        have j: "0 \<le> int i - 1" "int i - 1 < int (length xs)" using True assms i by linarith+
        have "ys ! nat (int i - 1) = xs ! nat (off + 1 + (int i - 1 - off))"
          using memmove_nth(1)[OF ys j] True by simp
        moreover have "nat (off + 1 + (int i - 1 - off)) = i" by linarith
        moreover have "off + (int i - (off + 1)) = int i - 1" by linarith
        ultimately show ?thesis using True by simp
      next
        case F2: False
        have "ys ! nat (int i) = xs ! nat (int i)"
          using memmove_nth(1)[OF ys i0(1) i0(3)] F2 False assms by (simp split: if_splits; linarith)
        then show ?thesis using F2 by auto
      qed
      finally show ?thesis .
    qed
  qed
  then have "array_set zs off (xs ! nat off) = Some xs"
    using assms lzs by (simp add: array_set_def)
  with ys zs show ?thesis by blast
qed


section \<open>Removing and re-adding the skip qual is the identity\<close>

text \<open>
  Claim C10.  Let the skip qual be present (not removed) at its recorded offset inside the
  keys in use, and the keys in use lie inside the array.  Then re-adding changes nothing and
  reports false; and \<^verbatim>\<open>skip_scan_state_remove_skip_qual\<close> followed by
  \<^verbatim>\<open>skip_scan_state_readd_skip_qual_if_needed\<close> reports true and gives back the state it
  started from, the whole scan-key array and the scan-key count included; the only field
  written is the saved copy \<open>skip_qual\<close>, which then holds the key found at the offset.
\<close>

theorem remove_readd_skip_qual_identity:
  assumes "\<not> skip_qual_removed state"
    and "0 \<le> skip_qual_offset state"
    and "skip_qual_offset state < num_scan_keys state"
    and "num_scan_keys state \<le> int (length (scan_keys state))"
  shows "skip_scan_state_readd_skip_qual_if_needed state = Inr (False, state) \<and>
         (\<exists>s1. skip_scan_state_remove_skip_qual state = Inr s1 \<and>
               skip_qual_removed s1 \<and>
               num_scan_keys s1 = num_scan_keys state - 1 \<and>
               skip_scan_state_readd_skip_qual_if_needed s1 =
                 Inr (True, state\<lparr>skip_qual := scan_keys state ! nat (skip_qual_offset state)\<rparr>))"
proof
  show "skip_scan_state_readd_skip_qual_if_needed state = Inr (False, state)"
    using assms(1) by (simp add: skip_scan_state_readd_skip_qual_if_needed_def)
next
  define off where "off = skip_qual_offset state"
  define n where "n = num_scan_keys state"
  define xs where "xs = scan_keys state"
  define k where "k = xs ! nat off"
  have b: "0 \<le> off" "off < n" "n \<le> int (length xs)"
    using assms by (simp_all add: off_def n_def xs_def)
  have get: "skip_scan_state_get_skipkey state = Inr off"
    using assms b by (simp add: skip_scan_state_get_skipkey_def off_def n_def)
  have aget: "array_get xs off = Some k"
    using b by (simp add: array_get_def k_def)
  show "\<exists>s1. skip_scan_state_remove_skip_qual state = Inr s1 \<and>
               skip_qual_removed s1 \<and>
               num_scan_keys s1 = num_scan_keys state - 1 \<and>
               skip_scan_state_readd_skip_qual_if_needed s1 =
                 Inr (True, state\<lparr>skip_qual := scan_keys state ! nat (skip_qual_offset state)\<rparr>)"
  proof (cases "n - off - 1 > 0")
    case True
    obtain ys zs where ys: "memmove xs off (off + 1) (n - off - 1) = Some ys"
      and zs: "memmove ys (off + 1) off (n - off - 1) = Some zs"
      and restored: "array_set zs off k = Some xs"
      using memmove_left_right[of off "n - off - 1" xs] b True unfolding k_def by auto
    let ?s1 = "state\<lparr>skip_qual := k, scan_keys := ys, num_scan_keys := n - 1,
                       skip_qual_removed := True\<rparr>"
    have rem: "skip_scan_state_remove_skip_qual state = Inr ?s1"
      using assms(1) b True get aget ys
      by (simp add: skip_scan_state_remove_skip_qual_def Let_def off_def[symmetric]
          n_def[symmetric] xs_def[symmetric])
    have get1: "skip_scan_state_get_skipkey
                  (?s1\<lparr>skip_qual_removed := False, num_scan_keys := n - 1 + 1\<rparr>) = Inr off"
      using b by (simp add: skip_scan_state_get_skipkey_def off_def)
    have e: "num_scan_keys state - 1 - off = num_scan_keys state - off - 1" by simp
    have readd: "skip_scan_state_readd_skip_qual_if_needed ?s1 =
                   Inr (True, state\<lparr>skip_qual := k\<rparr>)"
      using True zs restored b assms(1)
      by (simp add: skip_scan_state_readd_skip_qual_if_needed_def Let_def
          skip_scan_state_get_skipkey_def off_def[symmetric] n_def xs_def e)
    show ?thesis
      using rem readd by (simp add: k_def xs_def off_def n_def)
  next
    case False
    then have last: "off = n - 1" using b by simp
    let ?s1 = "state\<lparr>skip_qual := k, scan_keys := xs, num_scan_keys := n - 1,
                       skip_qual_removed := True\<rparr>"
    have rem: "skip_scan_state_remove_skip_qual state = Inr ?s1"
      using assms(1) b False get aget
      by (simp add: skip_scan_state_remove_skip_qual_def Let_def off_def[symmetric]
          n_def[symmetric] xs_def[symmetric])
    have set: "array_set xs off k = Some xs"
      using b by (simp add: array_set_def k_def)
    have readd: "skip_scan_state_readd_skip_qual_if_needed ?s1 =
                   Inr (True, state\<lparr>skip_qual := k\<rparr>)"
      using False set b last assms(1)
      by (simp add: skip_scan_state_readd_skip_qual_if_needed_def Let_def
          skip_scan_state_get_skipkey_def off_def[symmetric] n_def xs_def)
    show ?thesis
      using rem readd by (simp add: k_def xs_def off_def n_def)
  qed
qed

theorem remove_readd_skip_qual_identity_witness:
  "\<not> skip_qual_removed example_state \<and> 0 \<le> skip_qual_offset example_state \<and>
   skip_qual_offset example_state < num_scan_keys example_state \<and>
   num_scan_keys example_state \<le> int (length (scan_keys example_state)) \<and>
   skip_scan_state_readd_skip_qual_if_needed example_state = Inr (False, example_state) \<and>
   (\<exists>s1. skip_scan_state_remove_skip_qual example_state = Inr s1 \<and>
         scan_keys s1 = [example_keys ! 0, example_keys ! 2, example_keys ! 2] \<and>
         num_scan_keys s1 = 2 \<and>
         skip_scan_state_readd_skip_qual_if_needed s1 = Inr (True, example_state))"
proof -
  have h: "\<not> skip_qual_removed example_state" "0 \<le> skip_qual_offset example_state"
    "skip_qual_offset example_state < num_scan_keys example_state"
    "num_scan_keys example_state \<le> int (length (scan_keys example_state))"
    by (simp_all add: example_state_def example_keys_def)
  have e: "example_state\<lparr>skip_qual := scan_keys example_state ! nat (skip_qual_offset example_state)\<rparr> = example_state"
    by (simp add: example_state_def)
  have r: "skip_scan_state_remove_skip_qual example_state =
      Inr (example_state\<lparr>skip_qual := example_keys ! 1,
             scan_keys := [example_keys ! 0, example_keys ! 2, example_keys ! 2],
             num_scan_keys := 2, skip_qual_removed := True\<rparr>)"
    by (simp add: skip_scan_state_remove_skip_qual_def skip_scan_state_get_skipkey_def
        array_get_def memmove_def example_state_def example_keys_def Let_def)
  show ?thesis
    using remove_readd_skip_qual_identity[OF h] h r unfolding e by auto
qed


section \<open>The keys of a node\<close>

text \<open>
  The keys in use other than the skip qual, the skip qual itself (in the array, or the saved
  copy while it is removed), and the bounds within which the node keeps them.
\<close>

definition other_keys :: "SkipScanState \<Rightarrow> ScanKeyData list" where
  "other_keys s =
     (if skip_qual_removed s then take (nat (num_scan_keys s)) (scan_keys s)
      else take (nat (skip_qual_offset s)) (scan_keys s) @
           drop (nat (skip_qual_offset s) + 1) (take (nat (num_scan_keys s)) (scan_keys s)))"

definition cur_skip_key :: "SkipScanState \<Rightarrow> ScanKeyData" where
  "cur_skip_key s =
     (if skip_qual_removed s then skip_qual s else scan_keys s ! nat (skip_qual_offset s))"

definition keys_wf :: "SkipScanState \<Rightarrow> bool" where
  "keys_wf s =
     (0 \<le> skip_qual_offset s \<and>
      (if skip_qual_removed s
       then skip_qual_offset s \<le> num_scan_keys s \<and> num_scan_keys s < int (length (scan_keys s))
       else skip_qual_offset s < num_scan_keys s \<and> num_scan_keys s \<le> int (length (scan_keys s))) \<and>
      (index_only_scan s \<longrightarrow> index_only_buffer s \<noteq> None))"



lemma memmove_nat:
  "memmove xs (int d) (int sr) (int n) =
     (if d + n \<le> length xs \<and> sr + n \<le> length xs
      then Some (take d xs @ take n (drop sr xs) @ drop (d + n) xs) else None)"
proof -
  have "nat (int d + int n) = d + n" by linarith
  then show ?thesis by (simp add: memmove_def)
qed

lemma take_two_appends:
  "length as = a \<Longrightarrow> length bs = b \<Longrightarrow> take (a + b) (as @ bs @ cs) = as @ bs"
  by simp


lemma readd_keys_nat:
  fixes k :: 'a
  assumes "o' \<le> n" "n < length ys"
  defines "zs \<equiv> (take (Suc o') ys @ take (n - o') (drop o' ys) @ drop (Suc o' + (n - o')) ys)[o' := k]"
  shows "take (Suc n) zs = take o' (take n ys) @ k # drop o' (take n ys)"
    and "length zs = length ys" and "zs ! o' = k"
proof -
  have lA: "length (take (Suc o') ys) = Suc o'" using assms by simp
  have lB: "length (take (n - o') (drop o' ys)) = n - o'" using assms by simp
  have lC: "length (drop (Suc o' + (n - o')) ys) = length ys - Suc n" using assms by simp
  show lz: "length zs = length ys" unfolding zs_def using lA lB lC assms(1,2) by simp
  show "zs ! o' = k" using lz assms(1,2) unfolding zs_def by simp
  have e: "Suc n = Suc o' + (n - o')" using assms by simp
  have 1: "take (Suc n) zs = (take (Suc n) (take (Suc o') ys @ take (n - o') (drop o' ys) @ drop (Suc o' + (n - o')) ys))[o' := k]"
    unfolding zs_def by (simp only: take_update_swap)
  have 2: "take (Suc n) (take (Suc o') ys @ take (n - o') (drop o' ys) @ drop (Suc o' + (n - o')) ys)
      = take (Suc o') ys @ take (n - o') (drop o' ys)"
    by (subst e) (rule take_two_appends[OF lA lB])
  have 3: "take (Suc o') ys = take o' ys @ [ys ! o']"
    using assms by (simp add: take_Suc_conv_app_nth)
  have 4: "((take o' ys @ [ys ! o']) @ take (n - o') (drop o' ys))[o' := k] = take o' ys @ k # take (n - o') (drop o' ys)"
    using assms by (simp add: list_update_append)
  have 5: "take (n - o') (drop o' ys) = drop o' (take n ys)" by (simp add: drop_take)
  have 6: "take o' ys = take o' (take n ys)" using assms by (simp add: min_def)
  have "take (Suc n) zs = (take (Suc o') ys @ take (n - o') (drop o' ys))[o' := k]"
    by (simp only: 1 2)
  also have "\<dots> = ((take o' ys @ [ys ! o']) @ take (n - o') (drop o' ys))[o' := k]"
    by (simp only: 3)
  also note 4
  finally have "take (Suc n) zs = take o' ys @ k # take (n - o') (drop o' ys)" .
  then show "take (Suc n) zs = take o' (take n ys) @ k # drop o' (take n ys)"
    unfolding 5 using 6 by simp
qed


lemma memmove_int:
  assumes "0 \<le> d" "0 \<le> sr" "0 \<le> n"
  shows "memmove xs d sr n =
     (if nat d + nat n \<le> length xs \<and> nat sr + nat n \<le> length xs
      then Some (take (nat d) xs @ take (nat n) (drop (nat sr) xs) @ drop (nat d + nat n) xs)
      else None)"
  using memmove_nat[of xs "nat d" "nat sr" "nat n"] assms by simp



lemma readd_skip_qual_ok:
  assumes "keys_wf s" "skip_qual_removed s"
  shows "\<exists>zs. skip_scan_state_readd_skip_qual_if_needed s =
           Inr (True, s\<lparr>skip_qual_removed := False, num_scan_keys := num_scan_keys s + 1,
                         scan_keys := zs\<rparr>)
         \<and> length zs = length (scan_keys s)
         \<and> zs ! nat (skip_qual_offset s) = skip_qual s
         \<and> take (nat (num_scan_keys s + 1)) zs =
             take (nat (skip_qual_offset s)) (other_keys s) @ skip_qual s #
             drop (nat (skip_qual_offset s)) (other_keys s)"
proof -
  define off where "off = skip_qual_offset s"
  define num where "num = num_scan_keys s"
  define ys where "ys = scan_keys s"
  define k where "k = skip_qual s"
  have b: "0 \<le> off" "off \<le> num" "num < int (length ys)"
    using assms by (simp_all add: keys_wf_def off_def num_def ys_def)
  have bn: "nat off \<le> nat num" "nat num < length ys" using b by linarith+
  define zs where "zs = (take (Suc (nat off)) ys @ take (nat num - nat off) (drop (nat off) ys) @
                         drop (Suc (nat off) + (nat num - nat off)) ys)[nat off := k]"
  note r = readd_keys_nat[OF bn, of k, folded zs_def]
  have ok: "other_keys s = take (nat num) ys"
    using assms(2) by (simp add: other_keys_def num_def ys_def)
  have n1: "nat (num + 1) = Suc (nat num)" using b by linarith
  have "skip_scan_state_readd_skip_qual_if_needed s =
      (case (if num_scan_keys s - skip_qual_offset s > 0
             then memmove (scan_keys s) (skip_qual_offset s + 1) (skip_qual_offset s)
                    (num_scan_keys s - skip_qual_offset s)
             else Some (scan_keys s)) of
         None \<Rightarrow> Inl Out_of_bounds
       | Some ks \<Rightarrow>
          (case array_set ks (skip_qual_offset s) (skip_qual s) of
             None \<Rightarrow> Inl Out_of_bounds
           | Some ks' \<Rightarrow> Inr (True, s\<lparr>skip_qual_removed := False,
                 num_scan_keys := num_scan_keys s + 1, scan_keys := ks'\<rparr>)))"
    using assms(2) b
    by (simp add: skip_scan_state_readd_skip_qual_if_needed_def Let_def
        skip_scan_state_get_skipkey_def off_def num_def split: option.split)
  then have unfold: "skip_scan_state_readd_skip_qual_if_needed s =
      (case (if num - off > 0 then memmove ys (off + 1) off (num - off) else Some ys) of
         None \<Rightarrow> Inl Out_of_bounds
       | Some ks \<Rightarrow>
          (case array_set ks off k of
             None \<Rightarrow> Inl Out_of_bounds
           | Some ks' \<Rightarrow> Inr (True, s\<lparr>skip_qual_removed := False,
                 num_scan_keys := num_scan_keys s + 1, scan_keys := ks'\<rparr>)))"
    by (simp only: off_def num_def ys_def k_def)
  have res: "skip_scan_state_readd_skip_qual_if_needed s =
           Inr (True, s\<lparr>skip_qual_removed := False, num_scan_keys := num_scan_keys s + 1,
                         scan_keys := zs\<rparr>)"
  proof (cases "num - off > 0")
    case True
    have e: "nat (num - off) = nat num - nat off" "nat (off + 1) = Suc (nat off)"
      using b by linarith+
    let ?ks = "take (Suc (nat off)) ys @ take (nat num - nat off) (drop (nat off) ys) @
               drop (Suc (nat off) + (nat num - nat off)) ys"
    have "nat (off + 1) + nat (num - off) \<le> length ys \<and> nat off + nat (num - off) \<le> length ys"
      using b by linarith
    then have mm: "memmove ys (off + 1) off (num - off) = Some ?ks"
      using memmove_int[of "off + 1" off "num - off" ys] b True by (simp only: e) simp
    have l: "length ?ks = length ys" using bn b by (simp add: min_def; linarith)
    have "array_set ?ks off k = Some zs"
      unfolding array_set_def zs_def using l b by simp
    then show ?thesis unfolding unfold using True mm by simp
  next
    case False
    then have e: "nat num = nat off" using b by linarith
    have "take (Suc (nat off)) ys @ drop (Suc (nat off)) ys = ys" by (rule append_take_drop_id)
    then have "zs = ys[nat off := k]" using bn e by (simp add: zs_def)
    then have "array_set ys off k = Some zs"
      unfolding array_set_def using b by simp
    then show ?thesis unfolding unfold using False by simp
  qed
  show ?thesis
  proof (intro exI conjI)
    show "skip_scan_state_readd_skip_qual_if_needed s =
           Inr (True, s\<lparr>skip_qual_removed := False, num_scan_keys := num_scan_keys s + 1,
                         scan_keys := zs\<rparr>)"
      by (fact res)
    show "length zs = length (scan_keys s)" using r(2) by (simp only: ys_def)
    show "zs ! nat (skip_qual_offset s) = skip_qual s" using r(3) by (simp only: off_def k_def)
    show "take (nat (num_scan_keys s + 1)) zs =
             take (nat (skip_qual_offset s)) (other_keys s) @ skip_qual s #
             drop (nat (skip_qual_offset s)) (other_keys s)"
      using r(1) unfolding ok n1[unfolded num_def] by (simp only: off_def k_def num_def)
  qed
qed


subsection \<open>Flag bits\<close>

lemma bit_flag_consts:
  "bit SK_ISNULL n = (n = 0)"
  "bit SK_SEARCHNULL n = (n = 6)"
  "bit SK_SEARCHNOTNULL n = (n = 7)"
  using bit_pow32[of 0 n] bit_pow32[of 6 n] bit_pow32[of 7 n]
  by (simp_all add: SK_ISNULL_def SK_SEARCHNULL_def SK_SEARCHNOTNULL_def)

lemma flag_tests:
  "(f AND SK_ISNULL \<noteq> 0) = bit f 0"
  "(f AND SK_SEARCHNULL \<noteq> 0) = bit f 6"
  "(f AND SK_SEARCHNOTNULL \<noteq> 0) = bit f 7"
  by (auto simp add: word32_eq_iff bit_and_iff bit_flag_consts)

lemma bit_flag_updates:
  "bit (SK_SEARCHNULL OR SK_ISNULL) n = (n = 6 \<or> n = 0)"
  "bit (SK_SEARCHNOTNULL OR SK_ISNULL) n = (n = 7 \<or> n = 0)"
  "bit (f OR SK_ISNULL) n = (bit f n \<or> n = 0)"
  "bit (f AND NOT SK_ISNULL) n = (bit f n \<and> n \<noteq> 0)"
  "bit (f AND NOT SK_SEARCHNULL) n = (bit f n \<and> n \<noteq> 6)"
  "bit (f AND NOT SK_SEARCHNOTNULL) n = (bit f n \<and> n \<noteq> 7)"
  by (auto simp add: bit_and_iff bit_or_iff bit_not_iff bit_flag_consts dest: bit_imp_le_length)

lemma key_matches_bits:
  "key_matches k t =
     (if bit (sk_flags k) 0 then
        (if bit (sk_flags k) 6 then index_getattr t (sk_attno k) = None
         else if bit (sk_flags k) 7 then index_getattr t (sk_attno k) \<noteq> None
         else False)
      else (case index_getattr t (sk_attno k) of
              None \<Rightarrow> False
            | Some x \<Rightarrow> strategy_holds (sk_strategy k) x (sk_argument k)))"
  by (simp add: key_matches_def flag_tests)

text \<open>What the skip key tests once \<^verbatim>\<open>skip_scan_state_populate_skip_qual\<close> has filled it in.\<close>

definition skip_cond :: "SkipScanState \<Rightarrow> ScanKeyData \<Rightarrow> Tuple \<Rightarrow> bool" where
  "skip_cond s k0 t =
     (let c = index_getattr t (sk_attno k0) in
      if skip_scan_state_is_searching_for_null s then c = None
      else if skip_scan_state_is_searching_for_val s then c \<noteq> None
      else if prev_is_null s then
        (if \<not> skip_scan_state_found_null s \<and> bit (sk_flags k0) 6 then c = None
         else if bit (sk_flags k0) 7 then c \<noteq> None
         else False)
      else (case c of None \<Rightarrow> False
            | Some x \<Rightarrow> strategy_holds (sk_strategy k0) x (prev_distinct_val s)))"

definition populated_key :: "SkipScanState \<Rightarrow> ScanKeyData \<Rightarrow> ScanKeyData" where
  "populated_key s k0 =
     (let k1 = k0\<lparr>sk_argument := prev_distinct_val s\<rparr>
      in if skip_scan_state_is_searching_for_null s then
           k1\<lparr>sk_flags := SK_SEARCHNULL OR SK_ISNULL\<rparr>
         else if skip_scan_state_is_searching_for_val s then
           k1\<lparr>sk_flags := SK_SEARCHNOTNULL OR SK_ISNULL\<rparr>
         else if prev_is_null s then
           (let k' = (if skip_scan_state_found_null s
                      then k1\<lparr>sk_flags := sk_flags k1 AND NOT SK_SEARCHNULL\<rparr>
                      else k1)
            in k'\<lparr>sk_flags := sk_flags k' OR SK_ISNULL\<rparr>)
         else
           (let k' = (if skip_scan_state_found_val s
                      then k1\<lparr>sk_flags := sk_flags k1 AND NOT SK_SEARCHNOTNULL\<rparr>
                      else k1)
            in k'\<lparr>sk_flags := sk_flags k' AND NOT SK_ISNULL\<rparr>))"

lemma populate_skip_qual_ok:
  assumes "keys_wf s" "\<not> skip_qual_removed s"
  shows "skip_scan_state_populate_skip_qual s =
            Inr (s\<lparr>scan_keys := (scan_keys s)[nat (skip_qual_offset s) :=
                                      populated_key s (cur_skip_key s)]\<rparr>)"
proof -
  have b: "0 \<le> skip_qual_offset s" "skip_qual_offset s < num_scan_keys s"
    "num_scan_keys s \<le> int (length (scan_keys s))"
    using assms by (simp_all add: keys_wf_def)
  have get: "skip_scan_state_get_skipkey s = Inr (skip_qual_offset s)"
    using assms b by (simp add: skip_scan_state_get_skipkey_def)
  have aget: "array_get (scan_keys s) (skip_qual_offset s) = Some (cur_skip_key s)"
    using b assms by (simp add: array_get_def cur_skip_key_def)
  show ?thesis
    by (simp add: skip_scan_state_populate_skip_qual_def get aget populated_key_def Let_def)
qed

lemma populated_key_fields:
  "sk_attno (populated_key s k0) = sk_attno k0"
  "sk_strategy (populated_key s k0) = sk_strategy k0"
  "sk_argument (populated_key s k0) = prev_distinct_val s"
  by (simp_all add: populated_key_def Let_def)

lemma populated_key_matches:
  "key_matches (populated_key s k0) t = skip_cond s k0 t"
  by (simp add: populated_key_def Let_def key_matches_bits skip_cond_def bit_flag_updates bit_flag_consts cong: option.case_cong)



subsection \<open>What the set-up of a call leaves behind\<close>

lemma beginscan_ok:
  assumes "index_only_scan s \<longrightarrow> index_only_buffer s \<noteq> None"
  shows "skip_scan_state_beginscan s =
     Inr (s\<lparr>calls := calls s @ (if scan_desc s \<noteq> None then [Call_index_endscan] else []) @
                       [Call_index_beginscan (num_scan_keys s)],
            index_only_buffer := (if index_only_scan s then Some 0 else index_only_buffer s),
            scan_desc := Some \<lparr>numberOfKeys = num_scan_keys s, keyData = []\<rparr>\<rparr>)"
  using assms
  by (auto simp add: skip_scan_state_beginscan_def skip_scan_state_get_scandesc_def Let_def
      split: option.splits)

lemma index_rescan_ok:
  assumes "scan_desc s = Some d" "numberOfKeys d = num_scan_keys s"
    "0 \<le> num_scan_keys s" "num_scan_keys s \<le> int (length (scan_keys s))"
  shows "index_rescan s =
     Inr (s\<lparr>scan_desc := Some \<lparr>numberOfKeys = num_scan_keys s,
                                 keyData = take (nat (num_scan_keys s)) (scan_keys s)\<rparr>,
            calls := calls s @ [Call_index_rescan (take (nat (num_scan_keys s)) (scan_keys s))
                                  (num_scan_keys s)]\<rparr>)"
  using assms
  by (simp add: index_rescan_def skip_scan_state_get_scandesc_def
      skip_scan_state_get_scankeys_def Let_def)




lemma other_keys_update_present:
  assumes "keys_wf s" "\<not> skip_qual_removed s"
  shows "take (nat (num_scan_keys s)) ((scan_keys s)[nat (skip_qual_offset s) := k]) =
           take (nat (skip_qual_offset s)) (other_keys s) @ k #
           drop (nat (skip_qual_offset s)) (other_keys s)"
proof -
  define o' where "o' = nat (skip_qual_offset s)"
  define n where "n = nat (num_scan_keys s)"
  define xs where "xs = scan_keys s"
  have b: "o' < n" "n \<le> length xs"
    using assms by (simp_all add: keys_wf_def o'_def n_def xs_def) linarith
  have ok: "other_keys s = take o' xs @ drop (o' + 1) (take n xs)"
    using assms(2) by (simp add: other_keys_def o'_def n_def xs_def)
  have l: "length (take o' xs) = o'" using b by simp
  have 1: "take o' (other_keys s) = take o' xs" unfolding ok using l by simp
  have 2: "drop o' (other_keys s) = drop (o' + 1) (take n xs)" unfolding ok using l by simp
  have "take n (xs[o' := k]) = (take n xs)[o' := k]" by (simp add: take_update_swap)
  also have "\<dots> = take o' (take n xs) @ k # drop (Suc o') (take n xs)"
    using b by (simp add: upd_conv_take_nth_drop)
  also have "take o' (take n xs) = take o' xs" using b by (simp add: min_def)
  finally have "take n (xs[o' := k]) = take o' xs @ k # drop (Suc o') (take n xs)" .
  then have "take n (xs[o' := k]) = take o' (other_keys s) @ k # drop o' (other_keys s)"
    using 1 2 by simp
  then show ?thesis by (simp only: o'_def n_def xs_def)
qed

lemma populated_key_cong:
  "stage s' = stage s \<Longrightarrow> prev_is_null s' = prev_is_null s \<Longrightarrow>
   prev_distinct_val s' = prev_distinct_val s \<Longrightarrow> populated_key s' k = populated_key s k"
  by (simp add: populated_key_def skip_scan_state_is_searching_for_null_def
        skip_scan_state_is_searching_for_val_def skip_scan_state_found_null_def
        skip_scan_state_found_val_def Let_def cong: if_cong)

lemma exec_setup_later:
  assumes wf: "keys_wf s"
    and nf: "\<not> skip_scan_is_searching_for_first_val s"
    and d: "scan_desc s = Some d" "\<not> skip_qual_removed s \<longrightarrow> numberOfKeys d = num_scan_keys s"
  defines "n' \<equiv> (if skip_qual_removed s then num_scan_keys s + 1 else num_scan_keys s)"
  defines "pk \<equiv> populated_key s (cur_skip_key s)"
  shows "\<exists>ks. skip_scan_exec_setup s =
           Inr (s\<lparr>skip_qual_removed := False, num_scan_keys := n', scan_keys := ks,
                  calls := calls s @
                           (if skip_qual_removed s
                            then [Call_index_endscan, Call_index_beginscan n'] else []) @
                           [Call_index_rescan (take (nat n') ks) n'],
                  index_only_buffer := (if skip_qual_removed s \<and> index_only_scan s then Some 0
                                        else index_only_buffer s),
                  scan_desc := Some \<lparr>numberOfKeys = n', keyData = take (nat n') ks\<rparr>\<rparr>)
         \<and> length ks = length (scan_keys s)
         \<and> ks ! nat (skip_qual_offset s) = pk
         \<and> take (nat n') ks =
             take (nat (skip_qual_offset s)) (other_keys s) @ pk #
             drop (nat (skip_qual_offset s)) (other_keys s)"
proof (cases "skip_qual_removed s")
  case True
  from readd_skip_qual_ok[OF wf True] obtain zs where
    re: "skip_scan_state_readd_skip_qual_if_needed s =
           Inr (True, s\<lparr>skip_qual_removed := False, num_scan_keys := num_scan_keys s + 1,
                         scan_keys := zs\<rparr>)"
    and l: "length zs = length (scan_keys s)"
    and z: "zs ! nat (skip_qual_offset s) = skip_qual s"
    and t: "take (nat (num_scan_keys s + 1)) zs =
             take (nat (skip_qual_offset s)) (other_keys s) @ skip_qual s #
             drop (nat (skip_qual_offset s)) (other_keys s)"
    by blast
  have b: "0 \<le> skip_qual_offset s" "skip_qual_offset s \<le> num_scan_keys s"
    "num_scan_keys s < int (length (scan_keys s))"
    "index_only_scan s \<longrightarrow> index_only_buffer s \<noteq> None"
    using wf True by (simp_all add: keys_wf_def)
  let ?s1 = "s\<lparr>skip_qual_removed := False, num_scan_keys := num_scan_keys s + 1,
                         scan_keys := zs\<rparr>"
  have bs: "skip_scan_state_beginscan ?s1 =
     Inr (?s1\<lparr>calls := calls s @ [Call_index_endscan, Call_index_beginscan (num_scan_keys s + 1)],
            index_only_buffer := (if index_only_scan s then Some 0 else index_only_buffer s),
            scan_desc := Some \<lparr>numberOfKeys = num_scan_keys s + 1, keyData = []\<rparr>\<rparr>)"
    using beginscan_ok[of ?s1] b(4) d(1) by simp
  let ?s2 = "?s1\<lparr>calls := calls s @ [Call_index_endscan, Call_index_beginscan (num_scan_keys s + 1)],
            index_only_buffer := (if index_only_scan s then Some 0 else index_only_buffer s),
            scan_desc := Some \<lparr>numberOfKeys = num_scan_keys s + 1, keyData = []\<rparr>\<rparr>"
  have wf2: "keys_wf ?s2" "\<not> skip_qual_removed ?s2"
    using b l by (simp_all add: keys_wf_def)
  have csk: "cur_skip_key ?s2 = cur_skip_key s"
    using True z by (simp add: cur_skip_key_def)
  have pk2: "populated_key ?s2 (cur_skip_key s) = pk"
    unfolding pk_def by (rule populated_key_cong) simp_all
  define ks where "ks = zs[nat (skip_qual_offset s) := pk]"
  have po: "skip_scan_state_populate_skip_qual ?s2 = Inr (?s2\<lparr>scan_keys := ks\<rparr>)"
    using populate_skip_qual_ok[OF wf2] unfolding csk pk2 by (simp add: ks_def)
  let ?s3 = "?s2\<lparr>scan_keys := ks\<rparr>"
  have lk: "length ks = length (scan_keys s)" using l by (simp add: ks_def)
  have tk: "take (nat (num_scan_keys s + 1)) ks =
             take (nat (skip_qual_offset s)) (other_keys s) @ pk #
             drop (nat (skip_qual_offset s)) (other_keys s)"
  proof -
    have lo: "length (take (nat (skip_qual_offset s)) (other_keys s)) = nat (skip_qual_offset s)"
      using True b by (simp add: other_keys_def min_def)
    have "take (nat (num_scan_keys s + 1)) ks =
          (take (nat (num_scan_keys s + 1)) zs)[nat (skip_qual_offset s) := pk]"
      by (simp add: ks_def take_update_swap)
    also have "\<dots> = take (nat (skip_qual_offset s)) (other_keys s) @ pk #
             drop (nat (skip_qual_offset s)) (other_keys s)"
      unfolding t using lo by (simp add: list_update_append)
    finally show ?thesis .
  qed
  have rs: "index_rescan ?s3 =
     Inr (?s3\<lparr>scan_desc := Some \<lparr>numberOfKeys = num_scan_keys s + 1,
                                 keyData = take (nat (num_scan_keys s + 1)) ks\<rparr>,
            calls := calls s @ [Call_index_endscan, Call_index_beginscan (num_scan_keys s + 1),
                                Call_index_rescan (take (nat (num_scan_keys s + 1)) ks)
                                  (num_scan_keys s + 1)]\<rparr>)"
    using index_rescan_ok[of ?s3 "\<lparr>numberOfKeys = num_scan_keys s + 1, keyData = []\<rparr>"] b lk
    by simp
  have "skip_scan_exec_setup s =
           Inr (s\<lparr>skip_qual_removed := False, num_scan_keys := n', scan_keys := ks,
                  calls := calls s @
                           (if skip_qual_removed s
                            then [Call_index_endscan, Call_index_beginscan n'] else []) @
                           [Call_index_rescan (take (nat n') ks) n'],
                  index_only_buffer := (if skip_qual_removed s \<and> index_only_scan s then Some 0
                                        else index_only_buffer s),
                  scan_desc := Some \<lparr>numberOfKeys = n', keyData = take (nat n') ks\<rparr>\<rparr>)"
    unfolding skip_scan_exec_setup_def using nf re bs po rs True
    by (simp add: n'_def)
  moreover have "ks ! nat (skip_qual_offset s) = pk"
    using b l by (simp add: ks_def)
  moreover have "take (nat n') ks =
             take (nat (skip_qual_offset s)) (other_keys s) @ pk #
             drop (nat (skip_qual_offset s)) (other_keys s)"
    using tk True by (simp only: n'_def if_True)
  ultimately show ?thesis using lk by blast
next
  case False
  have b: "0 \<le> skip_qual_offset s" "skip_qual_offset s < num_scan_keys s"
    "num_scan_keys s \<le> int (length (scan_keys s))"
    using wf False by (simp_all add: keys_wf_def)
  have re: "skip_scan_state_readd_skip_qual_if_needed s = Inr (False, s)"
    using False by (simp add: skip_scan_state_readd_skip_qual_if_needed_def)
  define ks where "ks = (scan_keys s)[nat (skip_qual_offset s) := pk]"
  have po: "skip_scan_state_populate_skip_qual s = Inr (s\<lparr>scan_keys := ks\<rparr>)"
    using populate_skip_qual_ok[OF wf False] by (simp add: ks_def pk_def)
  let ?s3 = "s\<lparr>scan_keys := ks\<rparr>"
  have lk: "length ks = length (scan_keys s)" by (simp add: ks_def)
  have tk: "take (nat (num_scan_keys s)) ks =
             take (nat (skip_qual_offset s)) (other_keys s) @ pk #
             drop (nat (skip_qual_offset s)) (other_keys s)"
    unfolding ks_def by (rule other_keys_update_present[OF wf False])
  have rs: "index_rescan ?s3 =
     Inr (?s3\<lparr>scan_desc := Some \<lparr>numberOfKeys = num_scan_keys s,
                                 keyData = take (nat (num_scan_keys s)) ks\<rparr>,
            calls := calls s @ [Call_index_rescan (take (nat (num_scan_keys s)) ks)
                                  (num_scan_keys s)]\<rparr>)"
    using index_rescan_ok[of ?s3 d] b lk d False by simp
  have "skip_scan_exec_setup s =
           Inr (s\<lparr>skip_qual_removed := False, num_scan_keys := n', scan_keys := ks,
                  calls := calls s @
                           (if skip_qual_removed s
                            then [Call_index_endscan, Call_index_beginscan n'] else []) @
                           [Call_index_rescan (take (nat n') ks) n'],
                  index_only_buffer := (if skip_qual_removed s \<and> index_only_scan s then Some 0
                                        else index_only_buffer s),
                  scan_desc := Some \<lparr>numberOfKeys = n', keyData = take (nat n') ks\<rparr>\<rparr>)"
    unfolding skip_scan_exec_setup_def using nf re po rs False
    by (simp add: n'_def)
  moreover have "ks ! nat (skip_qual_offset s) = pk"
    using b by (simp add: ks_def)
  moreover have "take (nat n') ks =
             take (nat (skip_qual_offset s)) (other_keys s) @ pk #
             drop (nat (skip_qual_offset s)) (other_keys s)"
    using tk False by (simp only: n'_def if_False)
  ultimately show ?thesis using lk by blast
qed


section \<open>What one call returns\<close>

definition nonskip :: "SkipScanState \<Rightarrow> Tuple \<Rightarrow> bool" where
  "nonskip s t = (list_all (\<lambda>k. key_matches k t) (other_keys s) \<and> qual s t)"

definition candidates :: "SkipScanState \<Rightarrow> Tuple list" where
  "candidates s = filter (nonskip s) (scan_order s)"

definition distinct_key :: "SkipScanState \<Rightarrow> Tuple \<Rightarrow> Datum option" where
  "distinct_key s t = index_getattr t (sk_attno (cur_skip_key s))"

definition cols_agree :: "SkipScanState \<Rightarrow> bool" where
  "cols_agree s =
     (\<forall>t \<in> set (index_tuples s).
        slot_getattr t (distinct_col_attnum s) =
          Inr (case distinct_key s t of None \<Rightarrow> (0, True) | Some v \<Rightarrow> (v, False)))"

definition same_scan :: "SkipScanState \<Rightarrow> SkipScanState \<Rightarrow> bool" where
  "same_scan s s' =
     (other_keys s' = other_keys s \<and>
      sk_attno (cur_skip_key s') = sk_attno (cur_skip_key s) \<and>
      sk_strategy (cur_skip_key s') = sk_strategy (cur_skip_key s) \<and>
      index_tuples s' = index_tuples s \<and> scan_direction s' = scan_direction s \<and>
      qual s' = qual s \<and> distinct_col_attnum s' = distinct_col_attnum s)"

definition probe :: "SkipScanState \<Rightarrow> error + (Tuple option \<times> SkipScanState)" where
  "probe s =
     (case skip_scan_exec_setup s of
        Inl e \<Rightarrow> Inl e
      | Inr s1 \<Rightarrow>
         (case ExecProcNode s1 of
            (Some t, s2) \<Rightarrow>
              (case update_skip_key s2 t of
                 Inl e \<Rightarrow> Inl e
               | Inr s3 \<Rightarrow> Inr (Some t, s3))
          | (None, s2) \<Rightarrow> Inr (None, s2)))"

lemma probe_stage_None:
  "probe s = Inr (None, s') \<Longrightarrow> stage s' = stage s"
  by (auto simp add: probe_def split: sum.splits prod.splits option.splits
      dest!: exec_setup_stage ExecProcNode_stage)

lemma exec_is_probe:
  assumes "bit (stage s) 2"
  shows "skip_scan_exec s = probe s"
proof (cases "skip_scan_exec_setup s")
  case (Inl e)
  then show ?thesis by (simp add: skip_scan_exec.simps[of s] probe_def)
next
  case (Inr s1)
  obtain r s2 where f: "ExecProcNode s1 = (r, s2)" by (cases "ExecProcNode s1")
  have st: "stage s2 = stage s"
    using exec_setup_stage[OF Inr] ExecProcNode_stage[OF f] by simp
  have "skip_scan_state_found_everything s2 \<or> skip_scan_is_finished s2"
    using assms st by (auto simp add: found_everything_bit is_finished_bit)
  then show ?thesis
    using Inr f by (auto simp add: skip_scan_exec.simps[of s] probe_def split: option.splits)
qed

lemma exec_two_probes:
  assumes "\<not> bit (stage s) 2"
  shows "skip_scan_exec s =
     (case probe s of
        Inl e \<Rightarrow> Inl e
      | Inr (Some t, s3) \<Rightarrow> Inr (Some t, s3)
      | Inr (None, s2) \<Rightarrow>
          if skip_scan_state_found_everything s2 \<or> skip_scan_is_finished s2 then Inr (None, s2)
          else if \<not> skip_scan_state_found_null s2 then probe (search_for_null_state s2)
          else probe (search_for_nonnull_state s2))"
proof (cases "skip_scan_exec_setup s")
  case (Inl e)
  then show ?thesis by (simp add: skip_scan_exec.simps[of s] probe_def)
next
  case (Inr s1)
  obtain r s2 where f: "ExecProcNode s1 = (r, s2)" by (cases "ExecProcNode s1")
  have st: "stage s2 = stage s"
    using exec_setup_stage[OF Inr] ExecProcNode_stage[OF f] by simp
  show ?thesis
  proof (cases r)
    case (Some t)
    then show ?thesis
      using Inr f by (auto simp add: skip_scan_exec.simps[of s] probe_def split: sum.splits)
  next
    case None
    have p: "probe s = Inr (None, s2)" using Inr f None by (simp add: probe_def)
    show ?thesis
    proof (cases "skip_scan_state_found_everything s2 \<or> skip_scan_is_finished s2")
      case True
      then show ?thesis using Inr f None p by (auto simp add: skip_scan_exec.simps[of s])
    next
      case False
      then have bits: "\<not> (bit (stage s2) 0 \<and> bit (stage s2) 1)" "bit (stage s2) 0 \<or> bit (stage s2) 1"
        by (auto simp add: found_everything_bit is_finished_bit)
      show ?thesis
      proof (cases "skip_scan_state_found_null s2")
        case fn: False
        then have fv: "skip_scan_state_found_val s2"
          using bits by (simp add: found_null_bit found_val_bit)
        have b2: "bit (stage (search_for_null_state s2)) 2"
          by (simp add: search_for_null_state_def Let_def bit_stage_updates)
        have "skip_scan_exec s = skip_scan_search_for_null s2"
          using Inr f None False fn by (simp add: skip_scan_exec.simps[of s])
        also have "\<dots> = skip_scan_exec (search_for_null_state s2)"
          using fv by (simp add: skip_scan_search_for_null.simps[of s2])
        also have "\<dots> = probe (search_for_null_state s2)" by (rule exec_is_probe[OF b2])
        finally show ?thesis using p False fn by simp
      next
        case fn: True
        then have fv: "\<not> skip_scan_state_found_val s2"
          using bits by (simp add: found_null_bit found_val_bit)
        have b2: "bit (stage (search_for_nonnull_state s2)) 2"
          by (simp add: search_for_nonnull_state_def Let_def bit_stage_updates)
        have "skip_scan_exec s = skip_scan_search_for_nonnull s2"
          using Inr f None False fn fv by (simp add: skip_scan_exec.simps[of s])
        also have "\<dots> = skip_scan_exec (search_for_nonnull_state s2)"
          using fn by (simp add: skip_scan_search_for_nonnull.simps[of s2])
        also have "\<dots> = probe (search_for_nonnull_state s2)" by (rule exec_is_probe[OF b2])
        finally show ?thesis using p False fn by simp
      qed
    qed
  qed
qed


lemma find_filter: "find P (filter Q xs) = find (\<lambda>x. Q x \<and> P x) xs"
  by (induction xs) auto

lemma find_in_set: "find P xs = Some x \<Longrightarrow> x \<in> set xs \<and> P x"
  by (induction xs) (auto split: if_splits)

lemma ExecProcNode_ok:
  assumes "scan_desc s = Some d"
  defines "r \<equiv> find (\<lambda>t. list_all (\<lambda>k. key_matches k t) (keyData d) \<and> qual s t) (scan_order s)"
  shows "ExecProcNode s =
           (r, s\<lparr>calls := calls s @ [Call_ExecProcNode],
                  reached_end := (if r = None then map_option (\<lambda>_. True) (reached_end s)
                                  else reached_end s)\<rparr>)"
  using assms by (simp add: ExecProcNode_def Let_def)

lemma update_skip_key_ok:
  assumes "slot_getattr t (distinct_col_attnum s) =
             Inr (case c of None \<Rightarrow> (0, True) | Some v \<Rightarrow> (v, False))"
  shows "update_skip_key s t =
     Inr (s\<lparr>prev_distinct_val := (case c of None \<Rightarrow> 0 | Some v \<Rightarrow> v),
            prev_is_null := (c = None),
            stage := (stage s OR (if c = None then SkipScanFoundNull else SkipScanFoundVal))
                       AND NOT SkipScanSearchingForAdditional\<rparr>)"
  using assms by (cases c) (simp_all add: update_skip_key_def Let_def datumCopy_def)

definition after_probe :: "SkipScanState \<Rightarrow> Tuple option \<Rightarrow> SkipScanState \<Rightarrow> bool" where
  "after_probe s r s' =
     (same_scan s s' \<and> keys_wf s' \<and>
      scan_desc s' = Some \<lparr>numberOfKeys = num_scan_keys s',
                           keyData = take (nat (num_scan_keys s')) (scan_keys s')\<rparr> \<and>
      (case r of
         None \<Rightarrow> stage s' = stage s \<and> prev_is_null s' = prev_is_null s \<and>
                 prev_distinct_val s' = prev_distinct_val s
       | Some t \<Rightarrow>
           stage s' = (stage s OR (if distinct_key s t = None then SkipScanFoundNull
                                   else SkipScanFoundVal))
                        AND NOT SkipScanSearchingForAdditional \<and>
           prev_is_null s' = (distinct_key s t = None) \<and>
           prev_distinct_val s' = (case distinct_key s t of None \<Rightarrow> 0 | Some v \<Rightarrow> v)))"



lemma probe_later:
  assumes wf: "keys_wf s"
    and nf: "\<not> skip_scan_is_searching_for_first_val s"
    and d: "scan_desc s = Some d" "\<not> skip_qual_removed s \<longrightarrow> numberOfKeys d = num_scan_keys s"
    and ca: "cols_agree s"
  defines "r \<equiv> find (skip_cond s (cur_skip_key s)) (candidates s)"
  defines "n' \<equiv> (if skip_qual_removed s then num_scan_keys s + 1 else num_scan_keys s)"
  defines "pk \<equiv> populated_key s (cur_skip_key s)"
  defines "K \<equiv> take (nat (skip_qual_offset s)) (other_keys s) @ pk #
                drop (nat (skip_qual_offset s)) (other_keys s)"
  shows "\<exists>s'. probe s = Inr (r, s') \<and> after_probe s r s' \<and> \<not> skip_qual_removed s'
           \<and> cur_skip_key s' = pk
           \<and> calls s' = calls s @
                 (if skip_qual_removed s then [Call_index_endscan, Call_index_beginscan n'] else []) @
                 [Call_index_rescan K n', Call_ExecProcNode]"
proof -
  from exec_setup_later[OF wf nf d] obtain ks where
    su: "skip_scan_exec_setup s =
           Inr (s\<lparr>skip_qual_removed := False, num_scan_keys := n', scan_keys := ks,
                  calls := calls s @
                           (if skip_qual_removed s
                            then [Call_index_endscan, Call_index_beginscan n'] else []) @
                           [Call_index_rescan (take (nat n') ks) n'],
                  index_only_buffer := (if skip_qual_removed s \<and> index_only_scan s then Some 0
                                        else index_only_buffer s),
                  scan_desc := Some \<lparr>numberOfKeys = n', keyData = take (nat n') ks\<rparr>\<rparr>)"
    and l: "length ks = length (scan_keys s)"
    and kp: "ks ! nat (skip_qual_offset s) = pk"
    and t: "take (nat n') ks = K"
    unfolding n'_def pk_def K_def by blast
  let ?s1 = "s\<lparr>skip_qual_removed := False, num_scan_keys := n', scan_keys := ks,
                  calls := calls s @
                           (if skip_qual_removed s
                            then [Call_index_endscan, Call_index_beginscan n'] else []) @
                           [Call_index_rescan (take (nat n') ks) n'],
                  index_only_buffer := (if skip_qual_removed s \<and> index_only_scan s then Some 0
                                        else index_only_buffer s),
                  scan_desc := Some \<lparr>numberOfKeys = n', keyData = take (nat n') ks\<rparr>\<rparr>"
  have b: "0 \<le> skip_qual_offset s" "skip_qual_offset s < n'" "n' \<le> int (length (scan_keys s))"
    "index_only_scan s \<longrightarrow> index_only_buffer s \<noteq> None"
    using wf by (auto simp add: keys_wf_def n'_def split: if_splits)
  have lo: "length (take (nat (skip_qual_offset s)) (other_keys s)) = nat (skip_qual_offset s)"
    using wf by (auto simp add: other_keys_def keys_wf_def min_def split: if_splits)
  have all: "\<And>P. list_all P K = (P pk \<and> list_all P (other_keys s))"
  proof -
    fix P :: "ScanKeyData \<Rightarrow> bool"
    have "list_all P K = (list_all P (take (nat (skip_qual_offset s)) (other_keys s)) \<and> P pk \<and>
                          list_all P (drop (nat (skip_qual_offset s)) (other_keys s)))"
      by (simp add: K_def)
    also have "\<dots> = (P pk \<and> list_all P (take (nat (skip_qual_offset s)) (other_keys s) @
                                        drop (nat (skip_qual_offset s)) (other_keys s)))"
      by (simp only: list_all_append) blast
    finally show "list_all P K = (P pk \<and> list_all P (other_keys s))" by simp
  qed
  have r: "r = find (\<lambda>tu. list_all (\<lambda>k. key_matches k tu) K \<and> qual s tu) (scan_order s)"
    unfolding r_def candidates_def find_filter nonskip_def all pk_def populated_key_matches
    by (rule arg_cong2[where f = find]) auto
  have so: "scan_order ?s1 = scan_order s" by (simp add: scan_order_def)
  have ep: "ExecProcNode ?s1 =
           (r, ?s1\<lparr>calls := calls ?s1 @ [Call_ExecProcNode],
                  reached_end := (if r = None then map_option (\<lambda>_. True) (reached_end ?s1)
                                  else reached_end ?s1)\<rparr>)"
    using ExecProcNode_ok[of ?s1 "\<lparr>numberOfKeys = n', keyData = take (nat n') ks\<rparr>"]
    by (simp add: r t scan_order_def)
  let ?s2 = "?s1\<lparr>calls := calls ?s1 @ [Call_ExecProcNode],
                  reached_end := (if r = None then map_option (\<lambda>_. True) (reached_end ?s1)
                                  else reached_end ?s1)\<rparr>"
  have tk: "take (nat (skip_qual_offset s)) ks = take (nat (skip_qual_offset s)) (other_keys s)"
  proof -
    have "take (nat (skip_qual_offset s)) ks = take (nat (skip_qual_offset s)) (take (nat n') ks)"
      using b by (simp add: min_def)
    also have "\<dots> = take (nat (skip_qual_offset s)) (other_keys s)"
      unfolding t K_def using lo by simp
    finally show ?thesis .
  qed
  have dk: "drop (nat (skip_qual_offset s) + 1) (take (nat n') ks) =
            drop (nat (skip_qual_offset s)) (other_keys s)"
    unfolding t K_def using lo by simp
  have ok2: "other_keys ?s2 = other_keys s"
    using tk dk by (simp add: other_keys_def)
  have ck2: "cur_skip_key ?s2 = pk" using kp by (simp add: cur_skip_key_def)
  have wf2: "keys_wf ?s2" using b l by (simp add: keys_wf_def)
  have ss2: "same_scan s ?s2"
    using ok2 ck2 by (simp add: same_scan_def pk_def populated_key_fields)
  have cl2: "calls ?s2 = calls s @
                 (if skip_qual_removed s then [Call_index_endscan, Call_index_beginscan n'] else []) @
                 [Call_index_rescan K n', Call_ExecProcNode]"
    using t by simp
  show ?thesis
  proof (cases r)
    case None
    have "probe s = Inr (r, ?s2)" using su ep None by (simp add: probe_def)
    moreover have "after_probe s r ?s2"
      using ss2 wf2 None by (simp add: after_probe_def)
    moreover have "\<not> skip_qual_removed ?s2" by simp
    ultimately have "probe s = Inr (r, ?s2) \<and> after_probe s r ?s2 \<and> \<not> skip_qual_removed ?s2
           \<and> cur_skip_key ?s2 = pk
           \<and> calls ?s2 = calls s @
                 (if skip_qual_removed s then [Call_index_endscan, Call_index_beginscan n'] else []) @
                 [Call_index_rescan K n', Call_ExecProcNode]"
      using ck2 cl2 by blast
    then show ?thesis by (rule exI[of _ ?s2])
  next
    case (Some tu)
    then have "tu \<in> set (candidates s)" using find_in_set[of _ "candidates s" tu] r_def by simp
    then have "tu \<in> set (index_tuples s)"
      by (simp add: candidates_def scan_order_def split: if_splits)
    then have sg: "slot_getattr tu (distinct_col_attnum ?s2) =
             Inr (case distinct_key s tu of None \<Rightarrow> (0, True) | Some v \<Rightarrow> (v, False))"
      using ca by (simp add: cols_agree_def)
    note up = update_skip_key_ok[OF sg]
    let ?s3 = "?s2\<lparr>prev_distinct_val := (case distinct_key s tu of None \<Rightarrow> 0 | Some v \<Rightarrow> v),
            prev_is_null := (distinct_key s tu = None),
            stage := (stage ?s2 OR (if distinct_key s tu = None then SkipScanFoundNull else SkipScanFoundVal))
                       AND NOT SkipScanSearchingForAdditional\<rparr>"
    have "probe s = Inr (r, ?s3)" using su ep Some up by (simp add: probe_def)
    moreover have "other_keys ?s3 = other_keys s" using tk dk by (simp add: other_keys_def)
    moreover have ck3: "cur_skip_key ?s3 = pk" using kp by (simp add: cur_skip_key_def)
    moreover have "keys_wf ?s3" using b l by (simp add: keys_wf_def)
    moreover have "calls ?s3 = calls s @
                 (if skip_qual_removed s then [Call_index_endscan, Call_index_beginscan n'] else []) @
                 [Call_index_rescan K n', Call_ExecProcNode]"
      using t by simp
    moreover have "same_scan s ?s3"
      using calculation(2) ck3 by (simp add: same_scan_def pk_def populated_key_fields)
    ultimately have "probe s = Inr (r, ?s3) \<and> after_probe s r ?s3 \<and> \<not> skip_qual_removed ?s3
           \<and> cur_skip_key ?s3 = pk
           \<and> calls ?s3 = calls s @
                 (if skip_qual_removed s then [Call_index_endscan, Call_index_beginscan n'] else []) @
                 [Call_index_rescan K n', Call_ExecProcNode]"
      using Some by (simp add: after_probe_def)
    then show ?thesis by (rule exI[of _ ?s3])
  qed
qed

section \<open>The row a call returns\<close>




definition generation_start :: "SkipScanState \<Rightarrow> bool" where
  "generation_start s =
     (keys_wf s \<and> \<not> skip_qual_removed s \<and> skip_scan_is_searching_for_first_val s \<and>
      scan_desc s = None)"

lemma same_scan_refl: "same_scan s s"
  by (simp add: same_scan_def)




lemma same_scan_distinct_key:
  "same_scan s s' \<Longrightarrow> distinct_key s' = distinct_key s"
  by (simp add: same_scan_def distinct_key_def fun_eq_iff)

lemma same_scan_cols_agree:
  "same_scan s s' \<Longrightarrow> cols_agree s \<Longrightarrow> cols_agree s'"
  by (simp add: cols_agree_def same_scan_distinct_key) (simp add: same_scan_def)









lemma search_state_facts:
  "keys_wf (search_for_null_state s) = keys_wf s"
  "keys_wf (search_for_nonnull_state s) = keys_wf s"
  "same_scan s (search_for_null_state s)"
  "same_scan s (search_for_nonnull_state s)"
  "scan_desc (search_for_null_state s) = scan_desc s"
  "scan_desc (search_for_nonnull_state s) = scan_desc s"
  "skip_qual_removed (search_for_null_state s) = skip_qual_removed s"
  "skip_qual_removed (search_for_nonnull_state s) = skip_qual_removed s"
  "num_scan_keys (search_for_null_state s) = num_scan_keys s"
  "num_scan_keys (search_for_nonnull_state s) = num_scan_keys s"
  "cur_skip_key (search_for_null_state s) = cur_skip_key s"
  "cur_skip_key (search_for_nonnull_state s) = cur_skip_key s"
  "calls (search_for_null_state s) = calls s @ [Call_search_for_null]"
  "calls (search_for_nonnull_state s) = calls s @ [Call_search_for_nonnull]"
  "prev_is_null (search_for_null_state s) = prev_is_null s"
  "prev_is_null (search_for_nonnull_state s) = prev_is_null s"
  "prev_distinct_val (search_for_null_state s) = prev_distinct_val s"
  "prev_distinct_val (search_for_nonnull_state s) = prev_distinct_val s"
  "skip_qual_offset (search_for_null_state s) = skip_qual_offset s"
  "skip_qual_offset (search_for_nonnull_state s) = skip_qual_offset s"
  "other_keys (search_for_null_state s) = other_keys s"
  "other_keys (search_for_nonnull_state s) = other_keys s"
  by (simp_all add: search_for_null_state_def search_for_nonnull_state_def Let_def
      keys_wf_def same_scan_def other_keys_def cur_skip_key_def)

lemma search_state_bits:
  "bit (stage (search_for_null_state s)) n = (bit (stage s) n \<or> n = 1 \<or> n = 2)"
  "bit (stage (search_for_nonnull_state s)) n = (bit (stage s) n \<or> n = 0 \<or> n = 2)"
  by (simp_all add: search_for_null_state_def search_for_nonnull_state_def Let_def
      bit_stage_updates)


definition populated_keys :: "SkipScanState \<Rightarrow> ScanKeyData list" where
  "populated_keys s =
     take (nat (skip_qual_offset s)) (other_keys s) @ populated_key s (cur_skip_key s) #
     drop (nat (skip_qual_offset s)) (other_keys s)"

definition setup_calls :: "SkipScanState \<Rightarrow> inner_call list" where
  "setup_calls s =
     (if skip_qual_removed s
      then [Call_index_endscan, Call_index_beginscan (num_scan_keys s + 1),
            Call_index_rescan (populated_keys s) (num_scan_keys s + 1), Call_ExecProcNode]
      else [Call_index_rescan (populated_keys s) (num_scan_keys s), Call_ExecProcNode])"





section \<open>A whole generation\<close>











section \<open>The reference: a Unique node over the full scan\<close>

















section \<open>The order of the index\<close>








section \<open>The output of a generation\<close>

text \<open>
  The table of the scenarios: rows \<open>(k, v)\<close> = (1,10), (1,20), (2,30), (NULL,40) under an
  index on \<open>k\<close>, ascending with the NULLs last, scanned forwards by a node whose only scan
  key is the skip qual.
\<close>

definition scenario_rows :: "Tuple list" where
  "scenario_rows =
     [\<lparr>index_attrs = [Some 1], slot_attrs = [Some 1, Some 10]\<rparr>,
      \<lparr>index_attrs = [Some 1], slot_attrs = [Some 1, Some 20]\<rparr>,
      \<lparr>index_attrs = [Some 2], slot_attrs = [Some 2, Some 30]\<rparr>,
      \<lparr>index_attrs = [None], slot_attrs = [None, Some 40]\<rparr>]"

definition scenario_state :: SkipScanState where
  "scenario_state =
     \<lparr>scan_desc = None, num_scan_keys = 1,
      scan_keys = [\<lparr>sk_flags = 1, sk_attno = 1, sk_strategy = 5, sk_argument = 0\<rparr>],
      index_only_buffer = None, reached_end = Some False,
      prev_distinct_val = 0, prev_is_null = True,
      distinct_by_val = True, distinct_col_attnum = 1, distinct_typ_len = 4,
      stage = 0, skip_qual = \<lparr>sk_flags = 1, sk_attno = 1, sk_strategy = 5, sk_argument = 0\<rparr>,
      skip_qual_offset = 0,
      skip_qual_removed = False, index_only_scan = False,
      idx_scan = OtherPlan T_IndexScan, runtime_keys = [],
      index_tuples = scenario_rows, scan_direction = ForwardScanDirection,
      qual = (\<lambda>t. True), calls = []\<rparr>"











section \<open>The searches of a generation\<close>






section \<open>The calls a get-next call makes\<close>

lemma probe_later_calls:
  assumes wf: "keys_wf s"
    and nf: "\<not> skip_scan_is_searching_for_first_val s"
    and d: "scan_desc s = Some d" "\<not> skip_qual_removed s \<longrightarrow> numberOfKeys d = num_scan_keys s"
    and ca: "cols_agree s"
  shows "\<exists>r s'. probe s = Inr (r, s') \<and> after_probe s r s' \<and> \<not> skip_qual_removed s'
           \<and> calls s' = calls s @ setup_calls s"
  using probe_later[OF wf nf d ca]
  by (auto simp add: setup_calls_def populated_keys_def)

lemma exec_later_calls:
  assumes wf: "keys_wf s"
    and nf: "\<not> skip_scan_is_searching_for_first_val s"
    and d: "scan_desc s = Some d" "\<not> skip_qual_removed s \<longrightarrow> numberOfKeys d = num_scan_keys s"
    and ca: "cols_agree s"
  shows "\<exists>r s' B. skip_scan_exec s = Inr (r, s') \<and> \<not> skip_qual_removed s'
           \<and> calls s' = calls s @ setup_calls s @ B"
proof -
  let ?T = "\<exists>r s' B. skip_scan_exec s = Inr (r, s') \<and> \<not> skip_qual_removed s'
           \<and> calls s' = calls s @ setup_calls s @ B"
  from probe_later_calls[OF wf nf d ca] obtain r1 s1 where
    p1: "probe s = Inr (r1, s1)" and ap1: "after_probe s r1 s1"
    and nr1: "\<not> skip_qual_removed s1" and cl1: "calls s1 = calls s @ setup_calls s"
    by blast
  have done1: "skip_scan_exec s = Inr (r1, s1) \<Longrightarrow> ?T"
  proof -
    assume ex: "skip_scan_exec s = Inr (r1, s1)"
    have "calls s1 = calls s @ setup_calls s @ []" using cl1 by simp
    then show ?T using ex nr1 by blast
  qed
  have second: "\<And>s2. skip_scan_exec s = probe s2 \<Longrightarrow> same_scan s1 s2 \<Longrightarrow> keys_wf s2 \<Longrightarrow>
       \<not> skip_scan_is_searching_for_first_val s2 \<Longrightarrow> scan_desc s2 = scan_desc s1 \<Longrightarrow>
       num_scan_keys s2 = num_scan_keys s1 \<Longrightarrow> (\<exists>c. calls s2 = calls s1 @ [c]) \<Longrightarrow> ?T"
  proof -
    fix s2
    assume ex: "skip_scan_exec s = probe s2" and ss: "same_scan s1 s2" and wf2: "keys_wf s2"
      and nf2: "\<not> skip_scan_is_searching_for_first_val s2"
      and sd: "scan_desc s2 = scan_desc s1" and nk: "num_scan_keys s2 = num_scan_keys s1"
      and c: "\<exists>c. calls s2 = calls s1 @ [c]"
    have ss1: "same_scan s s1" using ap1 by (simp add: after_probe_def)
    have ca2: "cols_agree s2"
      by (rule same_scan_cols_agree[OF ss same_scan_cols_agree[OF ss1 ca]])
    have d2: "scan_desc s2 = Some \<lparr>numberOfKeys = num_scan_keys s1,
                           keyData = take (nat (num_scan_keys s1)) (scan_keys s1)\<rparr>"
      "\<not> skip_qual_removed s2 \<longrightarrow>
         numberOfKeys \<lparr>numberOfKeys = num_scan_keys s1,
                           keyData = take (nat (num_scan_keys s1)) (scan_keys s1)\<rparr> = num_scan_keys s2"
      using ap1 sd nk by (simp_all add: after_probe_def)
    from probe_later_calls[OF wf2 nf2 d2 ca2] obtain r3 s3 where
      p3: "probe s2 = Inr (r3, s3)" and nr3: "\<not> skip_qual_removed s3"
      and cl3: "calls s3 = calls s2 @ setup_calls s2"
      by blast
    obtain c where "calls s2 = calls s1 @ [c]" using c by blast
    then have "calls s3 = calls s @ setup_calls s @ (c # setup_calls s2)"
      using cl3 cl1 by simp
    then show ?T using ex p3 nr3 by (metis (no_types))
  qed
  show ?T
  proof (cases "bit (stage s) 2")
    case True
    then show ?T using exec_is_probe[OF True] p1 done1 by simp
  next
    case False
    note e2 = exec_two_probes[OF False, unfolded p1]
    show ?T
    proof (cases r1)
      case (Some t)
      then show ?T using e2 done1 by simp
    next
      case None
      show ?T
      proof (cases "skip_scan_state_found_everything s1 \<or> skip_scan_is_finished s1")
        case True
        then show ?T using e2 None done1 by simp
      next
        case nfin: False
        have wf1: "keys_wf s1" using ap1 by (simp add: after_probe_def)
        show ?T
        proof (cases "skip_scan_state_found_null s1")
          case True
          have ex: "skip_scan_exec s = probe (search_for_nonnull_state s1)"
            using e2 None nfin True by simp
          have nf2: "\<not> skip_scan_is_searching_for_first_val (search_for_nonnull_state s1)"
            using search_state_bits(2)[of s1 2] by (auto simp add: searching_for_first_bit)
          show ?T
            by (rule second[OF ex search_state_facts(4) _ nf2])
               (simp_all add: search_state_facts wf1)
        next
          case False
          have ex: "skip_scan_exec s = probe (search_for_null_state s1)"
            using e2 None nfin False by simp
          have nf2: "\<not> skip_scan_is_searching_for_first_val (search_for_null_state s1)"
            using search_state_bits(1)[of s1 2] by (auto simp add: searching_for_first_bit)
          show ?T
            by (rule second[OF ex search_state_facts(3) _ nf2])
               (simp_all add: search_state_facts wf1)
        qed
      qed
    qed
  qed
qed




text \<open>A node after its first call, which returned the row with \<open>k = 1\<close>.\<close>

definition later_scenario :: SkipScanState where
  "later_scenario =
     scenario_state\<lparr>stage := SkipScanFoundVal, prev_is_null := False, prev_distinct_val := 1,
                    skip_qual_removed := True, num_scan_keys := 0,
                    scan_desc := Some \<lparr>numberOfKeys = 0, keyData = []\<rparr>\<rparr>"

lemma later_scenario_facts:
  "keys_wf later_scenario" "cols_agree later_scenario"
  "\<not> skip_scan_is_searching_for_first_val later_scenario"
  "scan_desc later_scenario = Some \<lparr>numberOfKeys = 0, keyData = []\<rparr>"
  "skip_qual_removed later_scenario" "calls later_scenario = []"
  "num_scan_keys later_scenario = 0" "skip_qual_offset later_scenario = 0"
  "populated_keys later_scenario =
     [\<lparr>sk_flags = 0, sk_attno = 1, sk_strategy = 5, sk_argument = 1\<rparr>]"
  "prev_distinct_val later_scenario = 1"
  "cur_skip_key later_scenario = \<lparr>sk_flags = 1, sk_attno = 1, sk_strategy = 5, sk_argument = 0\<rparr>"
  by (simp_all add: later_scenario_def scenario_state_def keys_wf_def cols_agree_def
      distinct_key_def cur_skip_key_def scenario_rows_def index_getattr_def slot_getattr_def
      skip_scan_is_searching_for_first_val_def SkipScanSearchingForFirst_def
      SkipScanFoundVal_def populated_keys_def other_keys_def populated_key_def Let_def
      skip_scan_state_is_searching_for_null_def skip_scan_state_is_searching_for_val_def
      skip_scan_state_found_val_def SkipScanSearchingForNull_def SkipScanSearchingForVal_def
      SkipScanFoundNull_def SkipScanSearchingForAdditional_def
      SK_ISNULL_def SK_SEARCHNOTNULL_def)




section \<open>The found bits of the stage\<close>

definition keeps_found_bits :: "SkipScanState \<Rightarrow> SkipScanState \<Rightarrow> bool" where
  "keeps_found_bits s s' = (\<forall>n. n \<noteq> 2 \<longrightarrow> bit (stage s) n \<longrightarrow> bit (stage s') n)"

lemma update_skip_key_bits:
  "update_skip_key s t = Inr s' \<Longrightarrow> keeps_found_bits s s'"
  by (auto simp add: update_skip_key_def keeps_found_bits_def Let_def bit_stage_updates
      split: sum.splits if_splits)

lemma update_skip_key_found:
  "update_skip_key s t = Inr s' \<Longrightarrow> (bit (stage s') 0 \<or> bit (stage s') 1) \<and> \<not> bit (stage s') 2"
  by (auto simp add: update_skip_key_def Let_def bit_stage_updates
      split: sum.splits if_splits)

lemma exec_keeps_found_bits_aux:
  "\<forall>r s'. skip_scan_exec state = Inr (r, s') \<longrightarrow> keeps_found_bits state s'"
  "\<forall>r s'. skip_scan_search_for_null state1 = Inr (r, s') \<longrightarrow> keeps_found_bits state1 s'"
  "\<forall>r s'. skip_scan_search_for_nonnull state2 = Inr (r, s') \<longrightarrow> keeps_found_bits state2 s'"
proof (induction state and state1 and state2
    rule: skip_scan_exec_skip_scan_search_for_null_skip_scan_search_for_nonnull.induct)
  case (1 state)
  show ?case
  proof (intro allI impI)
    fix r s' assume ex: "skip_scan_exec state = Inr (r, s')"
    from ex obtain s1 where s1: "skip_scan_exec_setup state = Inr s1"
      by (auto simp add: skip_scan_exec.simps[of state] split: sum.splits)
    obtain res s2 where s2: "ExecProcNode s1 = (res, s2)" by (cases "ExecProcNode s1")
    have st: "stage s2 = stage state"
      using exec_setup_stage[OF s1] ExecProcNode_stage[OF s2] by simp
    show "keeps_found_bits state s'"
    proof (cases res)
      case (Some t)
      with ex s1 s2 have "update_skip_key s2 t = Inr s'"
        by (auto simp add: skip_scan_exec.simps[of state] split: sum.splits)
      from update_skip_key_bits[OF this] st show ?thesis
        by (simp add: keeps_found_bits_def)
    next
      case None
      show ?thesis
      proof (cases "skip_scan_state_found_everything s2 \<or> skip_scan_is_finished s2")
        case True
        with ex s1 s2 None have "s' = s2"
          by (auto simp add: skip_scan_exec.simps[of state] split: if_splits)
        with st show ?thesis by (simp add: keeps_found_bits_def)
      next
        case False
        note nf = this
        show ?thesis
        proof (cases "skip_scan_state_found_null s2")
          case False
          with ex s1 s2 None nf have "skip_scan_search_for_null s2 = Inr (r, s')"
            by (simp add: skip_scan_exec.simps[of state])
          with "1.IH"(1)[OF s1 s2[symmetric] None] nf False
          have "keeps_found_bits s2 s'" by simp
          with st show ?thesis by (simp add: keeps_found_bits_def)
        next
          case True
          note fn = this
          show ?thesis
          proof (cases "skip_scan_state_found_val s2")
            case False
            with ex s1 s2 None nf fn have "skip_scan_search_for_nonnull s2 = Inr (r, s')"
              by (simp add: skip_scan_exec.simps[of state])
            with "1.IH"(2)[OF s1 s2[symmetric] None] nf fn False
            have "keeps_found_bits s2 s'" by simp
            with st show ?thesis by (simp add: keeps_found_bits_def)
          next
            case True
            with ex s1 s2 None nf fn have "s' = s2"
              by (simp add: skip_scan_exec.simps[of state])
            with st show ?thesis by (simp add: keeps_found_bits_def)
          qed
        qed
      qed
    qed
  qed
next
  case (2 state)
  then show ?case
    by (auto simp add: skip_scan_search_for_null.simps[of state] keeps_found_bits_def
        search_for_null_state_def Let_def bit_stage_updates split: if_splits)
next
  case (3 state)
  then show ?case
    by (auto simp add: skip_scan_search_for_nonnull.simps[of state] keeps_found_bits_def
        search_for_nonnull_state_def Let_def bit_stage_updates split: if_splits)
qed


lemma exec_keeps_found_bits:
  "skip_scan_exec s = Inr (r, s') \<Longrightarrow> keeps_found_bits s s'"
  using exec_keeps_found_bits_aux(1)[of s] by blast

lemma keeps_found_bits_trans:
  "keeps_found_bits s s1 \<Longrightarrow> keeps_found_bits s1 s2 \<Longrightarrow> keeps_found_bits s s2"
  by (simp add: keeps_found_bits_def)

lemma pull_keeps_found_bits:
  "pull n s = Some (Inr (out, s')) \<Longrightarrow> keeps_found_bits s s'"
proof (induction n arbitrary: s out)
  case 0
  then show ?case by simp
next
  case (Suc n)
  from Suc.prems obtain r s1 where ex: "skip_scan_exec s = Inr (r, s1)"
    by (cases "skip_scan_exec s") (auto split: sum.splits)
  note k1 = exec_keeps_found_bits[OF ex]
  show ?case
  proof (cases r)
    case None
    then have "s' = s1" using Suc.prems ex by simp
    then show ?thesis using k1 by simp
  next
    case (Some t)
    then obtain ts where "pull n s1 = Some (Inr (ts, s'))"
      using Suc.prems ex by (auto split: option.splits sum.splits)
    from Suc.IH[OF this] k1 show ?thesis by (rule keeps_found_bits_trans[rotated])
  qed
qed

lemma exec_row_sets_found_bit:
  assumes "skip_scan_exec s = Inr (Some t, s')"
  shows "bit (stage s') 0 \<or> bit (stage s') 1"
proof -
  have a: "\<forall>t s'. skip_scan_exec state = Inr (Some t, s') \<longrightarrow> bit (stage s') 0 \<or> bit (stage s') 1"
    and "\<forall>t s'. skip_scan_search_for_null state1 = Inr (Some t, s') \<longrightarrow>
            bit (stage s') 0 \<or> bit (stage s') 1"
    and "\<forall>t s'. skip_scan_search_for_nonnull state2 = Inr (Some t, s') \<longrightarrow>
            bit (stage s') 0 \<or> bit (stage s') 1"
    for state state1 state2
  proof (induction state and state1 and state2
      rule: skip_scan_exec_skip_scan_search_for_null_skip_scan_search_for_nonnull.induct)
    case (1 state)
    show ?case
    proof (intro allI impI)
      fix t s' assume ex: "skip_scan_exec state = Inr (Some t, s')"
      from ex obtain s1 where s1: "skip_scan_exec_setup state = Inr s1"
        by (auto simp add: skip_scan_exec.simps[of state] split: sum.splits)
      obtain res s2 where s2: "ExecProcNode s1 = (res, s2)" by (cases "ExecProcNode s1")
      show "bit (stage s') 0 \<or> bit (stage s') 1"
      proof (cases res)
        case (Some u)
        with ex s1 s2 have "update_skip_key s2 u = Inr s'"
          by (auto simp add: skip_scan_exec.simps[of state] split: sum.splits)
        from update_skip_key_found[OF this] show ?thesis by simp
      next
        case None
        show ?thesis
        proof (cases "skip_scan_state_found_everything s2 \<or> skip_scan_is_finished s2")
          case True
          with ex s1 s2 None show ?thesis
            by (auto simp add: skip_scan_exec.simps[of state] split: if_splits)
        next
          case False
          note nf = this
          show ?thesis
          proof (cases "skip_scan_state_found_null s2")
            case False
            with ex s1 s2 None nf have "skip_scan_search_for_null s2 = Inr (Some t, s')"
              by (simp add: skip_scan_exec.simps[of state])
            with "1.IH"(1)[OF s1 s2[symmetric] None] nf False
            show ?thesis by simp
          next
            case True
            note fn = this
            show ?thesis
            proof (cases "skip_scan_state_found_val s2")
              case False
              with ex s1 s2 None nf fn have "skip_scan_search_for_nonnull s2 = Inr (Some t, s')"
                by (simp add: skip_scan_exec.simps[of state])
              with "1.IH"(2)[OF s1 s2[symmetric] None] nf fn False
              show ?thesis by simp
            next
              case True
              with ex s1 s2 None nf fn show ?thesis
                by (simp add: skip_scan_exec.simps[of state])
            qed
          qed
        qed
      qed
    qed
  next
    case (2 state)
    then show ?case
      by (auto simp add: skip_scan_search_for_null.simps[of state] split: if_splits)
  next
    case (3 state)
    then show ?case
      by (auto simp add: skip_scan_search_for_nonnull.simps[of state] split: if_splits)
  qed
  from a[of s] assms show ?thesis by blast
qed

lemma keeps_found_bits_accessors:
  assumes "keeps_found_bits s s'"
  shows "skip_scan_state_found_null s \<longrightarrow> skip_scan_state_found_null s'"
    and "skip_scan_state_found_val s \<longrightarrow> skip_scan_state_found_val s'"
  using assms by (auto simp add: keeps_found_bits_def found_null_bit found_val_bit)

lemma rescan_stage:
  "skip_scan_rescan s = Inr s' \<Longrightarrow> stage s' = SkipScanSearchingForFirst"
  by (auto simp add: skip_scan_rescan_def Let_def split: sum.splits prod.splits)

lemma end_stage: "skip_scan_end s = Inr s' \<Longrightarrow> stage s' = stage s"
  by (auto simp add: skip_scan_end_def split: if_splits option.splits)


section \<open>Rescan\<close>

lemma other_keys_readd:
  assumes wf: "keys_wf s" and rm: "skip_qual_removed s"
    and t: "take (nat (num_scan_keys s + 1)) zs =
             take (nat (skip_qual_offset s)) (other_keys s) @ k #
             drop (nat (skip_qual_offset s)) (other_keys s)"
  shows "other_keys (s\<lparr>skip_qual_removed := False, num_scan_keys := num_scan_keys s + 1,
                        scan_keys := zs\<rparr>) = other_keys s"
proof -
  define off where "off = nat (skip_qual_offset s)"
  define ok where "ok = other_keys s"
  define T where "T = take (nat (num_scan_keys s + 1)) zs"
  have b: "0 \<le> skip_qual_offset s" "skip_qual_offset s \<le> num_scan_keys s"
    "num_scan_keys s < int (length (scan_keys s))"
    using wf rm by (simp_all add: keys_wf_def)
  have "length ok = min (length (scan_keys s)) (nat (num_scan_keys s))"
    using rm by (simp add: ok_def other_keys_def)
  then have lo: "off \<le> length ok" unfolding off_def using b by linarith
  have on: "off \<le> nat (num_scan_keys s + 1)" unfolding off_def using b by linarith
  have T: "T = take off ok @ k # drop off ok" using t by (simp add: T_def off_def ok_def)
  have "take off zs = take off T" using on by (simp add: T_def min_def)
  also have "\<dots> = take off ok" using lo by (simp add: T)
  finally have t1: "take off zs = take off ok" .
  have t2: "drop (off + 1) T = drop off ok" using lo by (simp add: T)
  have "other_keys (s\<lparr>skip_qual_removed := False, num_scan_keys := num_scan_keys s + 1,
                        scan_keys := zs\<rparr>) = take off zs @ drop (off + 1) T"
    by (simp add: other_keys_def off_def T_def)
  also have "\<dots> = ok" using t1 t2 by simp
  finally show ?thesis by (simp add: ok_def)
qed

lemma rescan_ok:
  assumes wf: "keys_wf s"
  shows "\<exists>s'. skip_scan_rescan s = Inr s' \<and> generation_start s' \<and> same_scan s s'"
proof (cases "skip_qual_removed s")
  case False
  let ?s2 = "(if scan_desc s \<noteq> None then s\<lparr>calls := calls s @ [Call_index_endscan]\<rparr> else s)
               \<lparr>scan_desc := None\<rparr>"
  let ?s' = "(ExecReScan ?s2)\<lparr>prev_distinct_val := 0, prev_is_null := True,
                               stage := SkipScanSearchingForFirst\<rparr>"
  have r: "skip_scan_rescan s = Inr ?s'"
    using False
    by (simp add: skip_scan_rescan_def Let_def skip_scan_state_get_scandesc_def
        skip_scan_state_readd_skip_qual_if_needed_def)
  have g: "generation_start ?s'"
    using wf False
    by (simp add: generation_start_def keys_wf_def ExecReScan_def
        skip_scan_is_searching_for_first_val_def)
  have ss: "same_scan s ?s'"
    using False by (simp add: same_scan_def other_keys_def cur_skip_key_def ExecReScan_def)
  show ?thesis using r g ss by blast
next
  case True
  let ?s2 = "(if scan_desc s \<noteq> None then s\<lparr>calls := calls s @ [Call_index_endscan]\<rparr> else s)
               \<lparr>scan_desc := None\<rparr>"
  have wf2: "keys_wf ?s2" using wf by (simp add: keys_wf_def)
  have rm2: "skip_qual_removed ?s2" using True by simp
  have f2: "skip_qual_offset ?s2 = skip_qual_offset s" "num_scan_keys ?s2 = num_scan_keys s"
    "other_keys ?s2 = other_keys s" "skip_qual ?s2 = skip_qual s"
    "scan_keys ?s2 = scan_keys s"
    by (simp_all add: other_keys_def)
  from readd_skip_qual_ok[OF wf2 rm2] obtain zs where
    re: "skip_scan_state_readd_skip_qual_if_needed ?s2 =
           Inr (True, ?s2\<lparr>skip_qual_removed := False, num_scan_keys := num_scan_keys ?s2 + 1,
                         scan_keys := zs\<rparr>)"
    and l: "length zs = length (scan_keys s)"
    and z: "zs ! nat (skip_qual_offset s) = skip_qual s"
    and t: "take (nat (num_scan_keys s + 1)) zs =
             take (nat (skip_qual_offset s)) (other_keys s) @ skip_qual s #
             drop (nat (skip_qual_offset s)) (other_keys s)"
    unfolding f2 by blast
  let ?s3 = "?s2\<lparr>skip_qual_removed := False, num_scan_keys := num_scan_keys ?s2 + 1,
                         scan_keys := zs\<rparr>"
  let ?s' = "(ExecReScan ?s3)\<lparr>prev_distinct_val := 0, prev_is_null := True,
                               stage := SkipScanSearchingForFirst\<rparr>"
  have r: "skip_scan_rescan s = Inr ?s'"
    unfolding skip_scan_rescan_def Let_def skip_scan_state_get_scandesc_def re by simp
  have b: "0 \<le> skip_qual_offset s" "skip_qual_offset s \<le> num_scan_keys s"
    "num_scan_keys s < int (length (scan_keys s))"
    "index_only_scan s \<longrightarrow> index_only_buffer s \<noteq> None"
    using wf True by (simp_all add: keys_wf_def)
  have g: "generation_start ?s'"
    using b l
    by (simp add: generation_start_def keys_wf_def ExecReScan_def
        skip_scan_is_searching_for_first_val_def)
  have ok: "other_keys ?s' = other_keys s"
  proof -
    have "other_keys ?s' = other_keys (s\<lparr>skip_qual_removed := False,
                              num_scan_keys := num_scan_keys s + 1, scan_keys := zs\<rparr>)"
      by (simp add: other_keys_def ExecReScan_def)
    then show ?thesis using other_keys_readd[OF wf True t] by simp
  qed
  have ck: "cur_skip_key ?s' = cur_skip_key s"
    using z True by (simp add: cur_skip_key_def ExecReScan_def)
  have ss: "same_scan s ?s'"
    unfolding same_scan_def ok ck by (simp add: ExecReScan_def)
  show ?thesis using r g ss by blast
qed


text \<open>
  Claim C9.  In any state of the node, a get-next call that returns, and so any run of
  get-next calls, keeps the found-NULL bit and the found-value bit of the stage that are
  set, and a call that returns a row has set one of them; closing the node leaves the
  stage alone; a rescan puts the stage back to \<open>SkipScanSearchingForFirst\<close>.
\<close>

theorem found_bits_kept_until_rescan:
  "(skip_scan_exec s = Inr (r, s1) \<longrightarrow>
      (skip_scan_state_found_null s \<longrightarrow> skip_scan_state_found_null s1) \<and>
      (skip_scan_state_found_val s \<longrightarrow> skip_scan_state_found_val s1) \<and>
      (r \<noteq> None \<longrightarrow> skip_scan_state_found_null s1 \<or> skip_scan_state_found_val s1)) \<and>
   (pull n s = Some (Inr (out, s2)) \<longrightarrow>
      (skip_scan_state_found_null s \<longrightarrow> skip_scan_state_found_null s2) \<and>
      (skip_scan_state_found_val s \<longrightarrow> skip_scan_state_found_val s2)) \<and>
   (skip_scan_end s = Inr s3 \<longrightarrow> stage s3 = stage s) \<and>
   (skip_scan_rescan s = Inr s4 \<longrightarrow> stage s4 = SkipScanSearchingForFirst)"
proof (intro conjI impI)
  assume ex: "skip_scan_exec s = Inr (r, s1)"
  note k = keeps_found_bits_accessors[OF exec_keeps_found_bits[OF ex]]
  { assume "skip_scan_state_found_null s" then show "skip_scan_state_found_null s1"
      using k(1) by simp }
  { assume "skip_scan_state_found_val s" then show "skip_scan_state_found_val s1"
      using k(2) by simp }
  { assume "r \<noteq> None"
    then obtain t where "skip_scan_exec s = Inr (Some t, s1)" using ex by auto
    from exec_row_sets_found_bit[OF this]
    show "skip_scan_state_found_null s1 \<or> skip_scan_state_found_val s1"
      by (simp add: found_null_bit found_val_bit) }
next
  assume p: "pull n s = Some (Inr (out, s2))"
  note k = keeps_found_bits_accessors[OF pull_keeps_found_bits[OF p]]
  { assume "skip_scan_state_found_null s" then show "skip_scan_state_found_null s2"
      using k(1) by simp }
  { assume "skip_scan_state_found_val s" then show "skip_scan_state_found_val s2"
      using k(2) by simp }
next
  assume "skip_scan_end s = Inr s3" then show "stage s3 = stage s" by (rule end_stage)
next
  assume "skip_scan_rescan s = Inr s4"
  then show "stage s4 = SkipScanSearchingForFirst" by (rule rescan_stage)
qed

theorem found_bits_kept_until_rescan_witness:
  "skip_scan_state_found_val later_scenario \<and>
   (\<exists>r s1. skip_scan_exec later_scenario = Inr (r, s1) \<and> skip_scan_state_found_val s1) \<and>
   (\<exists>s3. skip_scan_end later_scenario = Inr s3 \<and> stage s3 = SkipScanFoundVal) \<and>
   (\<exists>s4. skip_scan_rescan later_scenario = Inr s4 \<and> stage s4 = SkipScanSearchingForFirst)"
proof -
  have fv: "skip_scan_state_found_val later_scenario"
    by (simp add: later_scenario_def skip_scan_state_found_val_def SkipScanFoundVal_def)
  from exec_later_calls[OF later_scenario_facts(1,3,4) _ later_scenario_facts(2)]
  obtain r s1 where ex: "skip_scan_exec later_scenario = Inr (r, s1)"
    by (auto simp add: later_scenario_facts)
  have a: "\<exists>r s1. skip_scan_exec later_scenario = Inr (r, s1) \<and> skip_scan_state_found_val s1"
    using found_bits_kept_until_rescan[of later_scenario r s1] ex fv by blast
  have e: "skip_scan_end later_scenario =
             Inr (later_scenario\<lparr>calls := calls later_scenario @ [Call_ExecEndNode]\<rparr>)"
    by (simp add: skip_scan_end_def later_scenario_def scenario_state_def)
  have b: "\<exists>s3. skip_scan_end later_scenario = Inr s3 \<and> stage s3 = SkipScanFoundVal"
    using found_bits_kept_until_rescan[of later_scenario _ _ _ _ _
        "later_scenario\<lparr>calls := calls later_scenario @ [Call_ExecEndNode]\<rparr>"] e
    by (simp add: later_scenario_def)
  from rescan_ok[OF later_scenario_facts(1)] obtain s4 where
    rs: "skip_scan_rescan later_scenario = Inr s4" by blast
  have c: "\<exists>s4. skip_scan_rescan later_scenario = Inr s4 \<and> stage s4 = SkipScanSearchingForFirst"
    using found_bits_kept_until_rescan[of later_scenario _ _ _ _ _ _ s4] rs by blast
  show ?thesis using fv a b c by blast
qed

section \<open>A second generation\<close>






section \<open>Paths of the planner\<close>

text \<open>
  A planner state with one table (range-table index 1) whose column 1 is an integer, and
  a btree index on that column.  A second index path is on an expression, which the hook
  declines.
\<close>

definition example_root :: PlannerInfo where
  "example_root =
     \<lparr>simple_rte_relid = (\<lambda>i. 16384),
      SearchSysCache2_ATTNUM =
        (\<lambda>rel col. if col = 1
                    then Some \<lparr>atttypid = 23, atttypmod = - 1, attcollation = 0,
                                attbyval = True, attlen = 4\<rparr>
                    else None),
      get_opfamily_member =
        (\<lambda>opfamily lefttype righttype strategy.
            if strategy = 5 then 521 else if strategy = 1 then 97 else 0)\<rparr>"





















section \<open>The hook and the path list\<close>





section \<open>The place of the skip qual at open\<close>








section \<open>The plan of a skip scan\<close>

text \<open>The index condition that \<^verbatim>\<open>skip_scan_plan_create\<close> makes of the path's clause.\<close>

definition fixed_skip_clause :: "Expr \<Rightarrow> int \<Rightarrow> Expr" where
  "fixed_skip_clause cl indexcol =
     (case cl of
        OpExpr opn rt rs oc ic as \<Rightarrow>
          (case as of
             Var vn va vt vm vc vl # rest \<Rightarrow>
               OpExpr opn rt rs oc ic (Var INDEX_VAR (indexcol + 1) vt vm vc vl # rest)
           | _ \<Rightarrow> cl)
      | _ \<Rightarrow> cl)"

text \<open>The inner plan that \<^verbatim>\<open>skip_scan_plan_create\<close> makes of the plan of the index path.\<close>

definition with_skip_clause :: "Path \<Rightarrow> Plan \<Rightarrow> Plan" where
  "with_skip_clause best_path p =
     (case p of
        IndexScan ppf iq iqo iob dir \<Rightarrow>
          IndexScan ppf
            (fixed_skip_clause (clause (skip_clause best_path)) (distinct_column best_path) # iq)
            (clause (skip_clause best_path) # iqo) iob dir
      | IndexOnlyScan ppf iq iob dir \<Rightarrow>
          IndexOnlyScan ppf
            (fixed_skip_clause (clause (skip_clause best_path)) (distinct_column best_path) # iq)
            iob dir
      | _ \<Rightarrow> p)"

lemma plan_create_ok:
  assumes "skip_scan_plan_create create_plan best_path = Inr cs"
  shows "custom_plans cs = [with_skip_clause best_path (create_plan (index_path best_path))]"
    and "\<exists>opn rt rs oc ic vn va vt vm vc vl rhs.
           clause (skip_clause best_path) = OpExpr opn rt rs oc ic [Var vn va vt vm vc vl, rhs]"
    and "(\<exists>ppf iq iqo iob dir. create_plan (index_path best_path) = IndexScan ppf iq iqo iob dir) \<or>
         (\<exists>ppf iq iob dir. create_plan (index_path best_path) = IndexOnlyScan ppf iq iob dir)"
proof -
  obtain bpf ipath rinfo indexcol tlen bv where
    sp: "best_path = SkipScanPath bpf ipath rinfo indexcol tlen bv"
    using assms by (cases best_path) (auto simp add: skip_scan_plan_create_def)
  obtain opn rt rs oc ic as where op: "clause rinfo = OpExpr opn rt rs oc ic as"
    using assms sp by (cases "clause rinfo") (auto simp add: skip_scan_plan_create_def Let_def)
  have l2: "length as = 2"
    using assms sp op by (auto simp add: skip_scan_plan_create_def Let_def split: if_splits)
  then obtain l rhs where as: "as = [l, rhs]"
    by (cases as; cases "tl as") auto
  obtain vn va vt vm vc vl where v: "l = Var vn va vt vm vc vl"
    using assms sp op as
    by (cases l) (auto simp add: skip_scan_plan_create_def Let_def split: if_splits option.splits)
  have fx: "fixed_skip_clause (clause rinfo) indexcol =
              OpExpr opn rt rs oc ic [Var INDEX_VAR (indexcol + 1) vt vm vc vl, rhs]"
    by (simp add: fixed_skip_clause_def op as v)
  have "clause (skip_clause best_path) = OpExpr opn rt rs oc ic [Var vn va vt vm vc vl, rhs]"
    by (simp add: sp op as v)
  then show "\<exists>opn rt rs oc ic vn va vt vm vc vl rhs.
           clause (skip_clause best_path) = OpExpr opn rt rs oc ic [Var vn va vt vm vc vl, rhs]"
    by blast
  show "custom_plans cs = [with_skip_clause best_path (create_plan (index_path best_path))]"
    using assms sp op as v fx
    by (cases "create_plan ipath")
       (auto simp add: skip_scan_plan_create_def Let_def with_skip_clause_def
          split: if_splits option.splits list.splits sum.splits)
  show "(\<exists>ppf iq iqo iob dir. create_plan (index_path best_path) = IndexScan ppf iq iqo iob dir) \<or>
         (\<exists>ppf iq iob dir. create_plan (index_path best_path) = IndexOnlyScan ppf iq iob dir)"
    using assms sp op as v
    by (cases "create_plan ipath")
       (auto simp add: skip_scan_plan_create_def Let_def
          split: if_splits option.splits list.splits sum.splits)
qed


lemma state_create_ok:
  assumes "ts_skip_scan_state_create cs = Inr state"
  shows "idx_scan state = hd (custom_plans cs)"
  using assms
  by (auto simp add: ts_skip_scan_state_create_def split: Plan.splits list.splits)


text \<open>
  A table with the columns \<open>a\<close> and \<open>k\<close>, an index on \<open>(a, k)\<close>, and the query
  \<open>SELECT DISTINCT ON (k) ... WHERE a = 2\<close>: the index path is sorted by \<open>k\<close>, and its
  plan has the condition \<open>a = 2\<close> on the first index column.
\<close>

definition two_column_index :: IndexOptInfo where
  "two_column_index =
     \<lparr>rel_relid = 1, nkeycolumns = 2, indexkeys = [1, 2], indexcollations = [0, 0],
      sortopfamily = Some [1976, 1976], reverse_sort = [False, False],
      indextlist = [\<lparr>expr = Var 1 1 23 (- 1) 0 0, resno = 1, ressortgroupref = 0\<rparr>,
                    \<lparr>expr = Var 1 2 23 (- 1) 0 0, resno = 2, ressortgroupref = 0\<rparr>]\<rparr>"

definition two_column_fields :: "NodeTag \<Rightarrow> PathFields" where
  "two_column_fields tag =
     \<lparr>pathtype = tag,
      pathkeys = [\<lparr>pk_eclass = \<lparr>ec_members = [\<lparr>em_expr = Var 1 2 23 (- 1) 0 0,
                                                  em_is_const = False\<rparr>],
                                  ec_has_volatile = False, ec_sortref = 0\<rparr>\<rparr>],
      startup_cost = Cost_value 0, total_cost = Cost_value 100,
      parallel_aware = False, parallel_safe = True\<rparr>"

definition two_column_index_path :: Path where
  "two_column_index_path =
     IndexPath (two_column_fields T_IndexScan) two_column_index [] ForwardScanDirection"

definition two_column_unique :: Path where
  "two_column_unique = UpperUniquePath (two_column_fields T_Unique) two_column_index_path 1"

definition user_qual :: Expr where
  "user_qual = OpExpr 96 16 False 0 0 [Var INDEX_VAR 1 23 (- 1) 0 0, Const 23 (- 1) 0 2 False]"

definition two_column_create_plan :: "Path \<Rightarrow> Plan" where
  "two_column_create_plan p =
     IndexScan \<lparr>targetlist = [\<lparr>expr = Var 1 1 23 (- 1) 0 0, resno = 1, ressortgroupref = 0\<rparr>,
                              \<lparr>expr = Var 1 2 23 (- 1) 0 0, resno = 2, ressortgroupref = 0\<rparr>],
                plan_qual = [], plan_parallel_aware = False, plan_parallel_safe = True\<rparr>
       [user_qual] [OpExpr 96 16 False 0 0 [Var 1 1 23 (- 1) 0 0, Const 23 (- 1) 0 2 False]]
       [] ForwardScanDirection"

definition two_column_root :: PlannerInfo where
  "two_column_root =
     example_root\<lparr>SearchSysCache2_ATTNUM :=
        (\<lambda>rel col. if col = 1 \<or> col = 2
                    then Some \<lparr>atttypid = 23, atttypmod = - 1, attcollation = 0,
                                attbyval = True, attlen = 4\<rparr>
                    else None)\<rparr>"

definition example_estate :: EState where
  "example_estate =
     \<lparr>es_index_tuples = [],
      es_op_strategy = (\<lambda>opn. if opn = 521 then 5 else if opn = 96 then 3 else 0),
      es_eval_qual = (\<lambda>quals t. True)\<rparr>"


definition two_column_skip_path :: Path where
  "two_column_skip_path =
     SkipScanPath (two_column_fields T_CustomScan) two_column_index_path
       \<lparr>clause = OpExpr 521 16 False 0 0 [Var 1 2 23 (- 1) 0 0, Const 23 (- 1) 0 0 True]\<rparr>
       1 4 True"

definition two_column_plan :: Plan where
  "two_column_plan =
     CustomScan
       \<lparr>targetlist = [\<lparr>expr = Var 1 1 23 (- 1) 0 0, resno = 1, ressortgroupref = 0\<rparr>,
                      \<lparr>expr = Var 1 2 23 (- 1) 0 0, resno = 2, ressortgroupref = 0\<rparr>],
        plan_qual = [], plan_parallel_aware = False, plan_parallel_safe = False\<rparr>
       [\<lparr>expr = Var 1 1 23 (- 1) 0 0, resno = 1, ressortgroupref = 0\<rparr>,
        \<lparr>expr = Var 1 2 23 (- 1) 0 0, resno = 2, ressortgroupref = 0\<rparr>]
       [IndexScan
          \<lparr>targetlist = [\<lparr>expr = Var 1 1 23 (- 1) 0 0, resno = 1, ressortgroupref = 0\<rparr>,
                         \<lparr>expr = Var 1 2 23 (- 1) 0 0, resno = 2, ressortgroupref = 0\<rparr>],
           plan_qual = [], plan_parallel_aware = False, plan_parallel_safe = True\<rparr>
          [OpExpr 521 16 False 0 0 [Var INDEX_VAR 2 23 (- 1) 0 0, Const 23 (- 1) 0 0 True],
           user_qual]
          [OpExpr 521 16 False 0 0 [Var 1 2 23 (- 1) 0 0, Const 23 (- 1) 0 0 True],
           OpExpr 96 16 False 0 0 [Var 1 1 23 (- 1) 0 0, Const 23 (- 1) 0 2 False]]
          [] ForwardScanDirection]
       [2, 1, 4] ''SkipScan''"

lemma two_column_create:
  "create_index_skip_scan_path two_column_root two_column_unique two_column_index_path False =
     Inr (Some two_column_skip_path)"
  by (simp add: create_index_skip_scan_path_def two_column_index_path_def
      two_column_unique_def two_column_index_def two_column_fields_def
      two_column_root_def example_root_def two_column_skip_path_def Let_def
      find_column_from_tlist_def find_ec_member_for_tle_def array_get_def
      skip_qual_strategy_def BTLessStrategyNumber_def BTGreaterStrategyNumber_def
      InvalidOid_def BOOLOID_def)

lemma two_column_plan_create:
  "skip_scan_plan_create two_column_create_plan two_column_skip_path = Inr two_column_plan"
  by (simp add: skip_scan_plan_create_def two_column_skip_path_def two_column_index_path_def
      two_column_index_def two_column_fields_def two_column_create_plan_def two_column_plan_def
      Let_def array_get_def find_column_from_tlist_def find_ec_member_for_tle_def)

lemma two_column_begin:
  "\<exists>st s'. ts_skip_scan_state_create two_column_plan = Inr st \<and>
      skip_scan_begin st example_estate = Inr s' \<and>
      num_scan_keys s' = 2 \<and> skip_qual_offset s' = 1 \<and>
      scan_keys s' = [\<lparr>sk_flags = 0, sk_attno = 1, sk_strategy = 3, sk_argument = 2\<rparr>,
                      \<lparr>sk_flags = 1, sk_attno = 2, sk_strategy = 5, sk_argument = 0\<rparr>]"
  by (simp add: ts_skip_scan_state_create_def two_column_plan_def skip_scan_begin_def
      ExecInitIndexScan_def ExecIndexBuildScanKey_def user_qual_def example_estate_def
      INDEX_VAR_def SK_ISNULL_def Let_def array_get_def array_set_def memmove_def
      skip_scan_state_fixup_qual_order_def fixup_find_offset.simps)





section \<open>The errors of open\<close>

lemma build_scan_keys_errors:
  "ExecIndexBuildScanKeys op_strategy quals j = Inl e \<Longrightarrow>
     e = ERROR ''indexqual does not have key on left side'' \<or>
     e = ERROR ''unsupported indexqual type''"
proof (induction quals arbitrary: j)
  case Nil
  then show ?case by simp
next
  case (Cons q quals)
  show ?case
  proof (cases "ExecIndexBuildScanKey op_strategy q")
    case (Inl e')
    then have "e' = e" using Cons.prems by simp
    then show ?thesis
      using Inl
      by (auto simp add: ExecIndexBuildScanKey_def
          split: Expr.splits list.splits if_splits)
  next
    case (Inr kr)
    then have "ExecIndexBuildScanKeys op_strategy quals (j + 1) = Inl e"
      using Cons.prems by (auto split: prod.splits sum.splits)
    then show ?thesis by (rule Cons.IH)
  qed
qed

lemma fixup_find_offset_errors:
  "fixup_find_offset s = Inl e \<Longrightarrow> e = Out_of_bounds"
proof (induction s rule: fixup_find_offset.induct)
  case (1 state)
  show ?case
  proof (cases "skip_qual_offset state + 1 \<ge> num_scan_keys state")
    case True
    then show ?thesis using "1.prems" by (simp add: fixup_find_offset.simps[of state] Let_def)
  next
    case False
    show ?thesis
    proof (cases "array_get (scan_keys state) (skip_qual_offset state + 1)")
      case None
      then show ?thesis
        using "1.prems" False by (simp add: fixup_find_offset.simps[of state] Let_def)
    next
      case (Some sk)
      show ?thesis
      proof (cases "sk_attno sk \<ge> sk_attno (skip_qual state)")
        case True
        then show ?thesis
          using "1.prems" False Some by (simp add: fixup_find_offset.simps[of state] Let_def)
      next
        case ge: False
        have "fixup_find_offset (state\<lparr>skip_qual_offset := skip_qual_offset state + 1\<rparr>) = Inl e"
          using "1.prems" False Some ge by (simp add: fixup_find_offset.simps[of state] Let_def)
        then show ?thesis using "1.IH"[OF refl False Some ge] by simp
      qed
    qed
  qed
qed

lemma fixup_qual_order_errors:
  "skip_scan_state_fixup_qual_order s = Inl e \<Longrightarrow>
     e = Out_of_bounds \<or> (\<exists>m. e = Assert_failed m)"
  using fixup_find_offset_errors[of s]
  by (auto simp add: skip_scan_state_fixup_qual_order_def
      split: sum.splits if_splits option.splits)

text \<open>The part of \<^verbatim>\<open>skip_scan_begin\<close> after the inner node is initialised.\<close>

lemma begin_rest_errors:
  assumes "(let s2 = s1\<lparr>prev_distinct_val := 0, prev_is_null := True,
                      stage := SkipScanSearchingForFirst, skip_qual_removed := False\<rparr>
          in if num_scan_keys s2 \<le> 0 then Inr s2
             else (case array_get (scan_keys s2) 0 of
                     None \<Rightarrow> Inl Out_of_bounds
                   | Some k \<Rightarrow>
                       skip_scan_state_fixup_qual_order
                         (s2\<lparr>skip_qual := k, skip_qual_offset := 0\<rparr>))) = Inl e"
  shows "e = Out_of_bounds \<or> (\<exists>m. e = Assert_failed m)"
  using assms fixup_qual_order_errors
  by (auto simp add: Let_def split: if_splits option.splits)

lemma begin_no_orderbys:
  assumes "idx_scan state = IndexScan pf quals qo [] dir \<or>
           idx_scan state = IndexOnlyScan pf quals [] dir"
  shows "skip_scan_begin state estate \<noteq> Inl (ERROR ''cannot SkipScan with OrderByKeys'')"
    and "skip_scan_begin state estate \<noteq> Inl (ERROR ''unknown subscan type in SkipScan'')"
proof -
  have "\<And>e. skip_scan_begin state estate = Inl e \<Longrightarrow>
          e = ERROR ''indexqual does not have key on left side'' \<or>
          e = ERROR ''unsupported indexqual type'' \<or>
          e = Out_of_bounds \<or> (\<exists>m. e = Assert_failed m)"
  proof -
    fix e assume b: "skip_scan_begin state estate = Inl e"
    show "e = ERROR ''indexqual does not have key on left side'' \<or>
          e = ERROR ''unsupported indexqual type'' \<or>
          e = Out_of_bounds \<or> (\<exists>m. e = Assert_failed m)"
    proof (cases "ExecIndexBuildScanKeys (es_op_strategy estate) quals 0")
      case (Inl e')
      then have "e' = e"
        using b assms by (auto simp add: skip_scan_begin_def ExecInitIndexScan_def)
      then show ?thesis using build_scan_keys_errors[OF Inl] by blast
    next
      case (Inr kr)
      obtain ks rks where kr: "kr = (ks, rks)" by (cases kr)
      from assms show ?thesis
      proof
        assume i: "idx_scan state = IndexScan pf quals qo [] dir"
        let ?s1 = "state\<lparr>index_only_scan := False, scan_keys := ks,
                           num_scan_keys := int (length ks), scan_desc := None,
                           index_only_buffer := None, reached_end := Some False,
                           runtime_keys := rks, index_tuples := es_index_tuples estate,
                           scan_direction := dir,
                           qual := es_eval_qual estate (plan_qual pf)\<rparr>"
        have "(let s2 = ?s1\<lparr>prev_distinct_val := 0, prev_is_null := True,
                      stage := SkipScanSearchingForFirst, skip_qual_removed := False\<rparr>
          in if num_scan_keys s2 \<le> 0 then Inr s2
             else (case array_get (scan_keys s2) 0 of
                     None \<Rightarrow> Inl Out_of_bounds
                   | Some k \<Rightarrow>
                       skip_scan_state_fixup_qual_order
                         (s2\<lparr>skip_qual := k, skip_qual_offset := 0\<rparr>))) = Inl e"
          using b i Inr kr by (simp add: skip_scan_begin_def ExecInitIndexScan_def)
        from begin_rest_errors[OF this] show ?thesis by blast
      next
        assume i: "idx_scan state = IndexOnlyScan pf quals [] dir"
        let ?s1 = "state\<lparr>index_only_scan := True, scan_keys := ks,
                           num_scan_keys := int (length ks), scan_desc := None,
                           index_only_buffer := Some 0, reached_end := None,
                           runtime_keys := rks, index_tuples := es_index_tuples estate,
                           scan_direction := dir,
                           qual := es_eval_qual estate (plan_qual pf)\<rparr>"
        have "(let s2 = ?s1\<lparr>prev_distinct_val := 0, prev_is_null := True,
                      stage := SkipScanSearchingForFirst, skip_qual_removed := False\<rparr>
          in if num_scan_keys s2 \<le> 0 then Inr s2
             else (case array_get (scan_keys s2) 0 of
                     None \<Rightarrow> Inl Out_of_bounds
                   | Some k \<Rightarrow>
                       skip_scan_state_fixup_qual_order
                         (s2\<lparr>skip_qual := k, skip_qual_offset := 0\<rparr>))) = Inl e"
          using b i Inr kr by (simp add: skip_scan_begin_def ExecInitIndexScan_def)
        from begin_rest_errors[OF this] show ?thesis by blast
      qed
    qed
  qed
  then show "skip_scan_begin state estate \<noteq> Inl (ERROR ''cannot SkipScan with OrderByKeys'')"
    and "skip_scan_begin state estate \<noteq> Inl (ERROR ''unknown subscan type in SkipScan'')"
    by fastforce+
qed

lemma create_path_no_orderbys:
  assumes "create_index_skip_scan_path root up ipath fa = Inr (Some sp)"
  shows "index_path sp = ipath \<and> indexorderbys ipath = [] \<and>
         (\<exists>ipf ii dir. ipath = IndexPath ipf ii [] dir)"
proof (cases ipath)
  case (IndexPath ipf ii ob dir)
  have ob: "ob = []"
    using assms IndexPath
    by (auto simp add: create_index_skip_scan_path_def split: option.splits if_splits)
  have "index_path sp = ipath"
    using assms IndexPath ob
    by (auto simp add: create_index_skip_scan_path_def Let_def
        split: option.splits if_splits list.splits sum.splits prod.splits)
  then show ?thesis using IndexPath ob by simp
qed (use assms in \<open>auto simp add: create_index_skip_scan_path_def\<close>)


text \<open>An index scan plan with an ORDER BY key, which no skip scan path leads to.\<close>

definition order_by_plan :: Plan where
  "order_by_plan =
     IndexScan \<lparr>targetlist = [], plan_qual = [], plan_parallel_aware = False,
                plan_parallel_safe = True\<rparr>
       [] [] [user_qual] ForwardScanDirection"

text \<open>
  Claim C6.  A node whose inner plan is an index scan or an index-only scan with ORDER BY
  keys does not open: \<^verbatim>\<open>skip_scan_begin\<close> ends in an error, which is
  \<open>cannot SkipScan with OrderByKeys\<close> as soon as the host has built the scan keys.  A node
  whose inner plan is of any other kind ends in \<open>unknown subscan type in SkipScan\<close>.
  Neither error is raised for the state made of the plan that
  \<^verbatim>\<open>skip_scan_plan_create\<close> makes of a path of \<^verbatim>\<open>create_index_skip_scan_path\<close>, when
  the host's \<^verbatim>\<open>create_plan\<close> gives a plan without ORDER BY keys for an index path that
  has none.
\<close>

theorem open_rejects_order_by_keys_and_unknown_scans:
  "(idx_scan state = IndexScan pf quals qo obs dir \<and> obs \<noteq> [] \<longrightarrow>
      (\<exists>e. skip_scan_begin state estate = Inl e) \<and>
      (\<forall>ks rks. ExecIndexBuildScanKeys (es_op_strategy estate) quals 0 = Inr (ks, rks) \<longrightarrow>
         skip_scan_begin state estate = Inl (ERROR ''cannot SkipScan with OrderByKeys''))) \<and>
   (idx_scan state = IndexOnlyScan pf quals obs dir \<and> obs \<noteq> [] \<longrightarrow>
      (\<exists>e. skip_scan_begin state estate = Inl e) \<and>
      (\<forall>ks rks. ExecIndexBuildScanKeys (es_op_strategy estate) quals 0 = Inr (ks, rks) \<longrightarrow>
         skip_scan_begin state estate = Inl (ERROR ''cannot SkipScan with OrderByKeys''))) \<and>
   ((\<exists>c1 c2 c3 c4 c5. idx_scan state = CustomScan c1 c2 c3 c4 c5) \<or>
    (\<exists>tag. idx_scan state = OtherPlan tag) \<longrightarrow>
      skip_scan_begin state estate = Inl (ERROR ''unknown subscan type in SkipScan'')) \<and>
   (create_index_skip_scan_path root up ipath fa = Inr (Some sp) \<and>
    skip_scan_plan_create create_plan sp = Inr cs \<and>
    ts_skip_scan_state_create cs = Inr st \<and>
    (indexorderbys ipath = [] \<longrightarrow> indexorderby (create_plan ipath) = []) \<longrightarrow>
      skip_scan_begin st estate \<noteq> Inl (ERROR ''cannot SkipScan with OrderByKeys'') \<and>
      skip_scan_begin st estate \<noteq> Inl (ERROR ''unknown subscan type in SkipScan''))"
proof (intro conjI impI)
  assume a: "idx_scan state = IndexScan pf quals qo obs dir \<and> obs \<noteq> []"
  then have l: "0 < length obs" by simp
  show "\<exists>e. skip_scan_begin state estate = Inl e"
    using a l
    by (cases "ExecIndexBuildScanKeys (es_op_strategy estate) quals 0")
       (auto simp add: skip_scan_begin_def ExecInitIndexScan_def)
  show "\<forall>ks rks. ExecIndexBuildScanKeys (es_op_strategy estate) quals 0 = Inr (ks, rks) \<longrightarrow>
         skip_scan_begin state estate = Inl (ERROR ''cannot SkipScan with OrderByKeys'')"
    using a l by (auto simp add: skip_scan_begin_def ExecInitIndexScan_def)
next
  assume a: "idx_scan state = IndexOnlyScan pf quals obs dir \<and> obs \<noteq> []"
  then have l: "0 < length obs" by simp
  show "\<exists>e. skip_scan_begin state estate = Inl e"
    using a l
    by (cases "ExecIndexBuildScanKeys (es_op_strategy estate) quals 0")
       (auto simp add: skip_scan_begin_def ExecInitIndexScan_def)
  show "\<forall>ks rks. ExecIndexBuildScanKeys (es_op_strategy estate) quals 0 = Inr (ks, rks) \<longrightarrow>
         skip_scan_begin state estate = Inl (ERROR ''cannot SkipScan with OrderByKeys'')"
    using a l by (auto simp add: skip_scan_begin_def ExecInitIndexScan_def)
next
  assume "(\<exists>c1 c2 c3 c4 c5. idx_scan state = CustomScan c1 c2 c3 c4 c5) \<or>
          (\<exists>tag. idx_scan state = OtherPlan tag)"
  then show "skip_scan_begin state estate = Inl (ERROR ''unknown subscan type in SkipScan'')"
    by (auto simp add: skip_scan_begin_def)
next
  assume a: "create_index_skip_scan_path root up ipath fa = Inr (Some sp) \<and>
    skip_scan_plan_create create_plan sp = Inr cs \<and>
    ts_skip_scan_state_create cs = Inr st \<and>
    (indexorderbys ipath = [] \<longrightarrow> indexorderby (create_plan ipath) = [])"
  then have cp: "create_index_skip_scan_path root up ipath fa = Inr (Some sp)"
    and pc: "skip_scan_plan_create create_plan sp = Inr cs"
    and sc: "ts_skip_scan_state_create cs = Inr st"
    and host: "indexorderbys ipath = [] \<longrightarrow> indexorderby (create_plan ipath) = []"
    by simp_all
  from create_path_no_orderbys[OF cp] have ip: "index_path sp = ipath" "indexorderbys ipath = []"
    by simp_all
  have no: "indexorderby (create_plan ipath) = []" using host ip by simp
  have iscan: "idx_scan st = with_skip_clause sp (create_plan ipath)"
    using state_create_ok[OF sc] plan_create_ok(1)[OF pc] ip by simp
  have "(\<exists>pf quals qo dir. idx_scan st = IndexScan pf quals qo [] dir) \<or>
        (\<exists>pf quals dir. idx_scan st = IndexOnlyScan pf quals [] dir)"
    using plan_create_ok(3)[OF pc] no unfolding iscan ip
    by (auto simp add: with_skip_clause_def)
  then show "skip_scan_begin st estate \<noteq> Inl (ERROR ''cannot SkipScan with OrderByKeys'')"
    and "skip_scan_begin st estate \<noteq> Inl (ERROR ''unknown subscan type in SkipScan'')"
    using begin_no_orderbys[of st _ _ _ _ estate] by blast+
qed

theorem open_rejects_order_by_keys_and_unknown_scans_witness:
  "skip_scan_begin (scenario_state\<lparr>idx_scan := order_by_plan\<rparr>) example_estate =
     Inl (ERROR ''cannot SkipScan with OrderByKeys'') \<and>
   skip_scan_begin scenario_state example_estate =
     Inl (ERROR ''unknown subscan type in SkipScan'') \<and>
   (\<exists>st s'. create_index_skip_scan_path two_column_root two_column_unique
               two_column_index_path False = Inr (Some two_column_skip_path) \<and>
            skip_scan_plan_create two_column_create_plan two_column_skip_path =
               Inr two_column_plan \<and>
            ts_skip_scan_state_create two_column_plan = Inr st \<and>
            skip_scan_begin st example_estate = Inr s' \<and>
            skip_scan_begin st example_estate \<noteq> Inl (ERROR ''cannot SkipScan with OrderByKeys'') \<and>
            skip_scan_begin st example_estate \<noteq> Inl (ERROR ''unknown subscan type in SkipScan''))"
proof -
  have i1: "idx_scan (scenario_state\<lparr>idx_scan := order_by_plan\<rparr>) =
              IndexScan \<lparr>targetlist = [], plan_qual = [], plan_parallel_aware = False,
                         plan_parallel_safe = True\<rparr> [] [] [user_qual] ForwardScanDirection \<and>
            [user_qual] \<noteq> []"
    by (simp add: order_by_plan_def)
  have k: "ExecIndexBuildScanKeys (es_op_strategy example_estate) [] 0 = Inr ([], [])" by simp
  have a: "skip_scan_begin (scenario_state\<lparr>idx_scan := order_by_plan\<rparr>) example_estate =
             Inl (ERROR ''cannot SkipScan with OrderByKeys'')"
    using open_rejects_order_by_keys_and_unknown_scans[of
        "scenario_state\<lparr>idx_scan := order_by_plan\<rparr>" _ "[]" "[]" "[user_qual]"
        ForwardScanDirection example_estate] i1 k
    by blast
  have i2: "\<exists>tag. idx_scan scenario_state = OtherPlan tag" by (simp add: scenario_state_def)
  have b: "skip_scan_begin scenario_state example_estate =
             Inl (ERROR ''unknown subscan type in SkipScan'')"
    using open_rejects_order_by_keys_and_unknown_scans[of scenario_state _ _ _ _ _
        example_estate] i2
    by blast
  from two_column_begin obtain st s' where
    st: "ts_skip_scan_state_create two_column_plan = Inr st"
    and bg: "skip_scan_begin st example_estate = Inr s'"
    by blast
  have host: "indexorderbys two_column_index_path = [] \<longrightarrow>
              indexorderby (two_column_create_plan two_column_index_path) = []"
    by (simp add: two_column_create_plan_def)
  have c: "skip_scan_begin st example_estate \<noteq> Inl (ERROR ''cannot SkipScan with OrderByKeys'') \<and>
           skip_scan_begin st example_estate \<noteq> Inl (ERROR ''unknown subscan type in SkipScan'')"
    using open_rejects_order_by_keys_and_unknown_scans[of _ _ _ _ _ _ example_estate
        two_column_root two_column_unique two_column_index_path False two_column_skip_path
        two_column_create_plan two_column_plan st]
      two_column_create two_column_plan_create st host
    by blast
  show ?thesis using a b c two_column_create two_column_plan_create st bg by blast
qed

end
